theory Spec2Isabelle
  imports Main "HOL-Library.Word"
begin

unbundle bit_operations_syntax

section \<open>Data model of \<open>lv_draw_img.c\<close>\<close>

text \<open>
  Bytes and opacities are \<open>uint8_t\<close>. A coordinate is an \<open>int\<close>: \<open>lv_coord_t\<close> is
  a signed integer type whose declaration (\<open>lv_area.h\<close>) is not among the sources, and
  the arithmetic on coordinates is that of the integers. The index arithmetic of the
  accessors is done by C in \<open>int\<close>, and the conversion of its result to \<open>uint32_t\<close>
  is written out (\<open>uint32_of\<close>). A colour is the \<open>full\<close> member of \<open>lv_color_t\<close>, zero-extended to
  32 bits.
\<close>

type_synonym uint8_t = "8 word"
type_synonym lv_opa_t = "8 word"
type_synonym lv_color_t = "32 word"
type_synonym lv_coord_t = int

datatype lv_img_cf_t =
    LV_IMG_CF_UNKNOWN
  | LV_IMG_CF_RAW
  | LV_IMG_CF_RAW_ALPHA
  | LV_IMG_CF_RAW_CHROMA_KEYED
  | LV_IMG_CF_TRUE_COLOR
  | LV_IMG_CF_TRUE_COLOR_ALPHA
  | LV_IMG_CF_TRUE_COLOR_CHROMA_KEYED
  | LV_IMG_CF_INDEXED_1BIT
  | LV_IMG_CF_INDEXED_2BIT
  | LV_IMG_CF_INDEXED_4BIT
  | LV_IMG_CF_INDEXED_8BIT
  | LV_IMG_CF_ALPHA_1BIT
  | LV_IMG_CF_ALPHA_2BIT
  | LV_IMG_CF_ALPHA_4BIT
  | LV_IMG_CF_ALPHA_8BIT

datatype lv_img_src_t =
    LV_IMG_SRC_VARIABLE
  | LV_IMG_SRC_FILE
  | LV_IMG_SRC_SYMBOL
  | LV_IMG_SRC_UNKNOWN

datatype lv_res_t = LV_RES_INV | LV_RES_OK

text \<open>
  What C leaves undefined (an access outside the buffer) and the early return of
  \<open>lv_img_buf_set_palette\<close> are values of the model.
\<close>

datatype error = OutOfBounds | InvalidId

text \<open>
  The configuration (\<open>lv_conf.h\<close>, \<open>lv_color.h\<close>, \<open>lv_img_decoder.h\<close>) is not
  among the sources: its constants are the fields of a record that every function
  takes. \<open>LV_COLOR_DEPTH\<close> is 8, 16 or 32, the three cases of the conditional
  compilation in \<open>lv_draw_map\<close>.
\<close>

datatype color_depth = Depth8 | Depth16 | Depth32

record lv_conf =
  LV_COLOR_DEPTH :: color_depth
  LV_IMG_PX_SIZE_ALPHA_BYTE :: nat
  LV_HOR_RES_MAX :: nat
  LV_OPA_MIN :: lv_opa_t
  LV_OPA_MAX :: lv_opa_t
  LV_COLOR_TRANSP :: lv_color_t

fun LV_COLOR_SIZE :: "lv_conf \<Rightarrow> nat" where
  "LV_COLOR_SIZE conf =
     (case LV_COLOR_DEPTH conf of Depth8 \<Rightarrow> 8 | Depth16 \<Rightarrow> 16 | Depth32 \<Rightarrow> 32)"

text \<open>\<open>sizeof(lv_color_t)\<close>, in bytes.\<close>

definition sizeof_lv_color_t :: "lv_conf \<Rightarrow> nat" where
  "sizeof_lv_color_t conf = LV_COLOR_SIZE conf div 8"

text \<open>
  Modelled from the spec: the opacity constants of the absent \<open>lv_color.h\<close>; the
  opacity range is that of a byte, 0 fully transparent and 255 fully opaque.
\<close>

definition LV_OPA_TRANSP :: lv_opa_t where
  "LV_OPA_TRANSP = 0"

definition LV_OPA_COVER :: lv_opa_t where
  "LV_OPA_COVER = 255"

definition LV_COLOR_BLACK :: lv_color_t where
  "LV_COLOR_BLACK = 0"

record lv_img_header_t =
  hdr_cf :: lv_img_cf_t
  hdr_w :: nat
  hdr_h :: nat

record lv_img_dsc_t =
  header :: lv_img_header_t
  data :: "uint8_t list"

record lv_style_t =
  image_color :: lv_color_t
  image_intense :: lv_opa_t
  image_opa :: lv_opa_t

subsection \<open>Memory\<close>

definition uint32_of :: "int \<Rightarrow> nat" where
  "uint32_of i = nat (i mod 2 ^ 32)"

definition buf_read :: "uint8_t list \<Rightarrow> nat \<Rightarrow> error + uint8_t" where
  "buf_read buf i = (if i < length buf then Inr (buf ! i) else Inl OutOfBounds)"

definition buf_write :: "uint8_t list \<Rightarrow> nat \<Rightarrow> uint8_t \<Rightarrow> error + uint8_t list" where
  "buf_write buf i v = (if i < length buf then Inr (buf[i := v]) else Inl OutOfBounds)"

text \<open>\<open>memcpy\<close> from and to the buffer, \<open>n\<close> bytes at index \<open>i\<close>.\<close>

definition buf_read_n :: "uint8_t list \<Rightarrow> nat \<Rightarrow> nat \<Rightarrow> error + uint8_t list" where
  "buf_read_n buf i n =
     (if i + n \<le> length buf then Inr (take n (drop i buf)) else Inl OutOfBounds)"

definition buf_write_n :: "uint8_t list \<Rightarrow> nat \<Rightarrow> uint8_t list \<Rightarrow> error + uint8_t list" where
  "buf_write_n buf i bs =
     (if i + length bs \<le> length buf
      then Inr (take i buf @ bs @ drop (i + length bs) buf)
      else Inl OutOfBounds)"

text \<open>The bytes of a colour in memory, least significant first, and back.\<close>

fun color_of_bytes :: "uint8_t list \<Rightarrow> lv_color_t" where
  "color_of_bytes [] = 0"
| "color_of_bytes (b # bs) = ucast b OR push_bit 8 (color_of_bytes bs)"

definition bytes_of_color :: "nat \<Rightarrow> lv_color_t \<Rightarrow> uint8_t list" where
  "bytes_of_color n c = map (\<lambda>i. ucast (drop_bit (8 * i) c)) [0..<n]"

subsection \<open>Format capability table\<close>

fun lv_img_color_format_get_px_size :: "lv_conf \<Rightarrow> lv_img_cf_t \<Rightarrow> nat" where
  "lv_img_color_format_get_px_size conf LV_IMG_CF_UNKNOWN = 0"
| "lv_img_color_format_get_px_size conf LV_IMG_CF_RAW = 0"
| "lv_img_color_format_get_px_size conf LV_IMG_CF_TRUE_COLOR = LV_COLOR_SIZE conf"
| "lv_img_color_format_get_px_size conf LV_IMG_CF_TRUE_COLOR_CHROMA_KEYED = LV_COLOR_SIZE conf"
| "lv_img_color_format_get_px_size conf LV_IMG_CF_TRUE_COLOR_ALPHA =
     push_bit 3 (LV_IMG_PX_SIZE_ALPHA_BYTE conf) mod 256"
| "lv_img_color_format_get_px_size conf LV_IMG_CF_INDEXED_1BIT = 1"
| "lv_img_color_format_get_px_size conf LV_IMG_CF_ALPHA_1BIT = 1"
| "lv_img_color_format_get_px_size conf LV_IMG_CF_INDEXED_2BIT = 2"
| "lv_img_color_format_get_px_size conf LV_IMG_CF_ALPHA_2BIT = 2"
| "lv_img_color_format_get_px_size conf LV_IMG_CF_INDEXED_4BIT = 4"
| "lv_img_color_format_get_px_size conf LV_IMG_CF_ALPHA_4BIT = 4"
| "lv_img_color_format_get_px_size conf LV_IMG_CF_INDEXED_8BIT = 8"
| "lv_img_color_format_get_px_size conf LV_IMG_CF_ALPHA_8BIT = 8"
| "lv_img_color_format_get_px_size conf _ = 0"

fun lv_img_color_format_is_chroma_keyed :: "lv_img_cf_t \<Rightarrow> bool" where
  "lv_img_color_format_is_chroma_keyed LV_IMG_CF_TRUE_COLOR_CHROMA_KEYED = True"
| "lv_img_color_format_is_chroma_keyed LV_IMG_CF_RAW_CHROMA_KEYED = True"
| "lv_img_color_format_is_chroma_keyed LV_IMG_CF_INDEXED_1BIT = True"
| "lv_img_color_format_is_chroma_keyed LV_IMG_CF_INDEXED_2BIT = True"
| "lv_img_color_format_is_chroma_keyed LV_IMG_CF_INDEXED_4BIT = True"
| "lv_img_color_format_is_chroma_keyed LV_IMG_CF_INDEXED_8BIT = True"
| "lv_img_color_format_is_chroma_keyed _ = False"

fun lv_img_color_format_has_alpha :: "lv_img_cf_t \<Rightarrow> bool" where
  "lv_img_color_format_has_alpha LV_IMG_CF_TRUE_COLOR_ALPHA = True"
| "lv_img_color_format_has_alpha LV_IMG_CF_RAW_ALPHA = True"
| "lv_img_color_format_has_alpha LV_IMG_CF_ALPHA_1BIT = True"
| "lv_img_color_format_has_alpha LV_IMG_CF_ALPHA_2BIT = True"
| "lv_img_color_format_has_alpha LV_IMG_CF_ALPHA_4BIT = True"
| "lv_img_color_format_has_alpha LV_IMG_CF_ALPHA_8BIT = True"
| "lv_img_color_format_has_alpha _ = False"

subsection \<open>Image source classifier\<close>

text \<open>
  A source handle is \<open>None\<close> for the null pointer, otherwise the bytes it points to.
\<close>

definition lv_img_src_get_type :: "uint8_t list option \<Rightarrow> error + lv_img_src_t" where
  "lv_img_src_get_type src =
     (case src of
        None \<Rightarrow> Inr LV_IMG_SRC_UNKNOWN
      | Some u8_p \<Rightarrow>
          (case buf_read u8_p 0 of
             Inl e \<Rightarrow> Inl e
           | Inr b \<Rightarrow>
               if b \<ge> 0x20 \<and> b \<le> 0x7F then Inr LV_IMG_SRC_FILE
               else if b \<ge> 0x80 then Inr LV_IMG_SRC_SYMBOL
               else Inr LV_IMG_SRC_VARIABLE))"

subsection \<open>Pixel format codec\<close>

text \<open>
  The four accessors follow the source branch by branch. \<open>x0\<close> and \<open>y0\<close> are the
  arguments; \<open>x\<close> and \<open>y\<close> are the local variables after the source has reassigned
  them. \<open>bit\<close> is a \<open>uint8_t\<close> in the source and at most 7, so the shift amounts
  \<open>7 - bit\<close>, \<open>6 - bit\<close> and \<open>4 - bit\<close> are natural numbers. The masked byte
  expressions are computed by C in \<open>int\<close> and stored into a byte; all their values
  are below 256, so they are written on bytes.
\<close>

definition lv_img_buf_get_px_color ::
  "lv_conf \<Rightarrow> lv_img_dsc_t \<Rightarrow> lv_coord_t \<Rightarrow> lv_coord_t \<Rightarrow> lv_style_t option
     \<Rightarrow> error + lv_color_t" where
  "lv_img_buf_get_px_color conf dsc x0 y0 style =
     (let w = int (hdr_w (header dsc)); h = int (hdr_h (header dsc));
          cf = hdr_cf (header dsc);
          x = (if x0 \<ge> w then w - 1 else if x0 < 0 then 0 else x0);
          y = (if y0 \<ge> h then h - 1 else if y0 < 0 then 0 else y0);
          buf_u8 = data dsc
      in
      if cf = LV_IMG_CF_TRUE_COLOR \<or> cf = LV_IMG_CF_TRUE_COLOR_CHROMA_KEYED \<or>
         cf = LV_IMG_CF_TRUE_COLOR_ALPHA then
        (let px_size = int (drop_bit 3 (lv_img_color_format_get_px_size conf cf));
             px = uint32_of (w * y * px_size + x * px_size)
         in case buf_read_n buf_u8 px (sizeof_lv_color_t conf) of
              Inl e \<Rightarrow> Inl e
            | Inr bs \<Rightarrow>
                Inr (if LV_COLOR_SIZE conf = 32 then color_of_bytes bs OR 0xFF000000
                     else color_of_bytes bs))
      else if cf = LV_IMG_CF_INDEXED_1BIT then
        (let bit = nat (x AND 7); x = drop_bit 3 x;
             px = uint32_of (drop_bit 3 (w + 7) * y + x)
         in case buf_read buf_u8 (4 * 2 + px) of
              Inl e \<Rightarrow> Inl e
            | Inr b \<Rightarrow> Inr (ucast (drop_bit (7 - bit) (b AND push_bit (7 - bit) 1))))
      else if cf = LV_IMG_CF_INDEXED_2BIT then
        (let bit = nat ((x AND 3) * 2); x = drop_bit 2 x;
             px = uint32_of (drop_bit 2 (w + 3) * y + x)
         in case buf_read buf_u8 (4 * 4 + px) of
              Inl e \<Rightarrow> Inl e
            | Inr b \<Rightarrow> Inr (ucast (drop_bit (6 - bit) (b AND push_bit (6 - bit) 3))))
      else if cf = LV_IMG_CF_INDEXED_4BIT then
        (let bit = nat ((x AND 1) * 4); x = drop_bit 1 x;
             px = uint32_of (drop_bit 1 (w + 1) * y + x)
         in case buf_read buf_u8 (4 * 16 + px) of
              Inl e \<Rightarrow> Inl e
            | Inr b \<Rightarrow> Inr (ucast (drop_bit (4 - bit) (b AND push_bit (4 - bit) 0xF))))
      else if cf = LV_IMG_CF_INDEXED_8BIT then
        (let px = uint32_of (w * y + x)
         in case buf_read buf_u8 (4 * 256 + px) of
              Inl e \<Rightarrow> Inl e
            | Inr b \<Rightarrow> Inr (ucast b))
      else if cf = LV_IMG_CF_ALPHA_1BIT \<or> cf = LV_IMG_CF_ALPHA_2BIT \<or>
              cf = LV_IMG_CF_ALPHA_4BIT \<or> cf = LV_IMG_CF_ALPHA_8BIT then
        (case style of Some st \<Rightarrow> Inr (image_color st) | None \<Rightarrow> Inr LV_COLOR_BLACK)
      else Inr LV_COLOR_BLACK)"

text \<open>The two lookup tables of \<open>lv_img_buf_get_px_alpha\<close>.\<close>

definition opa_table2 :: "lv_opa_t list" where
  "opa_table2 = [0, 85, 170, 255]"

definition opa_table4 :: "lv_opa_t list" where
  "opa_table4 = [0, 17, 34, 51, 68, 85, 102, 119, 136, 153, 170, 187, 204, 221, 238, 255]"

definition lv_img_buf_get_px_alpha ::
  "lv_conf \<Rightarrow> lv_img_dsc_t \<Rightarrow> lv_coord_t \<Rightarrow> lv_coord_t \<Rightarrow> error + lv_opa_t" where
  "lv_img_buf_get_px_alpha conf dsc x0 y0 =
     (let w = int (hdr_w (header dsc)); h = int (hdr_h (header dsc));
          cf = hdr_cf (header dsc);
          x = (if x0 \<ge> w then w - 1 else if x0 < 0 then 0 else x0);
          y = (if y0 \<ge> h then h - 1 else if y0 < 0 then 0 else y0);
          buf_u8 = data dsc
      in
      if cf = LV_IMG_CF_TRUE_COLOR_ALPHA then
        (let sz = int (LV_IMG_PX_SIZE_ALPHA_BYTE conf);
             px = uint32_of (w * y * sz + x * sz)
         in buf_read buf_u8 (uint32_of (int px + sz - 1)))
      else if cf = LV_IMG_CF_ALPHA_1BIT then
        (let bit = nat (x AND 7); x = drop_bit 3 x;
             px = uint32_of (drop_bit 3 (w + 7) * y + x)
         in case buf_read buf_u8 px of
              Inl e \<Rightarrow> Inl e
            | Inr b \<Rightarrow>
                (let px_opa = drop_bit (7 - bit) (b AND push_bit (7 - bit) 1)
                 in Inr (if px_opa \<noteq> 0 then LV_OPA_TRANSP else LV_OPA_COVER)))
      else if cf = LV_IMG_CF_ALPHA_2BIT then
        (let bit = nat ((x AND 3) * 2); x = drop_bit 2 x;
             px = uint32_of (drop_bit 2 (w + 3) * y + x)
         in case buf_read buf_u8 px of
              Inl e \<Rightarrow> Inl e
            | Inr b \<Rightarrow>
                (let px_opa = drop_bit (6 - bit) (b AND push_bit (6 - bit) 3)
                 in Inr (opa_table2 ! unat px_opa)))
      else if cf = LV_IMG_CF_ALPHA_4BIT then
        (let bit = nat ((x AND 1) * 4); x = drop_bit 1 x;
             px = uint32_of (drop_bit 1 (w + 1) * y + x)
         in case buf_read buf_u8 px of
              Inl e \<Rightarrow> Inl e
            | Inr b \<Rightarrow>
                (let px_opa = drop_bit (4 - bit) (b AND push_bit (4 - bit) 0xF)
                 in Inr (opa_table4 ! unat px_opa)))
      else if cf = LV_IMG_CF_ALPHA_8BIT then
        (let px = uint32_of (w * y + x) in buf_read buf_u8 px)
      else Inr LV_OPA_COVER)"

text \<open>
  The writers return the descriptor with its buffer updated. A byte that is read,
  masked and stored twice at one index is one read and one write of the model.
\<close>

definition lv_img_buf_set_px_color ::
  "lv_conf \<Rightarrow> lv_img_dsc_t \<Rightarrow> lv_coord_t \<Rightarrow> lv_coord_t \<Rightarrow> lv_color_t
     \<Rightarrow> error + lv_img_dsc_t" where
  "lv_img_buf_set_px_color conf dsc x0 y c =
     (let w = int (hdr_w (header dsc)); cf = hdr_cf (header dsc); x = x0;
          buf_u8 = data dsc
      in
      if cf = LV_IMG_CF_TRUE_COLOR \<or> cf = LV_IMG_CF_TRUE_COLOR_CHROMA_KEYED then
        (let px_size = drop_bit 3 (lv_img_color_format_get_px_size conf cf);
             px = uint32_of (w * y * int px_size + x * int px_size)
         in case buf_write_n buf_u8 px (bytes_of_color px_size c) of
              Inl e \<Rightarrow> Inl e
            | Inr buf' \<Rightarrow> Inr (dsc\<lparr>data := buf'\<rparr>))
      else if cf = LV_IMG_CF_TRUE_COLOR_ALPHA then
        (let px_size = drop_bit 3 (lv_img_color_format_get_px_size conf cf);
             px = uint32_of (w * y * int px_size + x * int px_size)
         in case buf_write_n buf_u8 px (bytes_of_color (px_size - 1) c) of
              Inl e \<Rightarrow> Inl e
            | Inr buf' \<Rightarrow> Inr (dsc\<lparr>data := buf'\<rparr>))
      else if cf = LV_IMG_CF_INDEXED_1BIT then
        (let bit = nat (x AND 7); x = drop_bit 3 x;
             px = uint32_of (drop_bit 3 (w + 7) * y + x)
         in case buf_read buf_u8 (4 * 2 + px) of
              Inl e \<Rightarrow> Inl e
            | Inr b \<Rightarrow>
                (case buf_write buf_u8 (4 * 2 + px)
                        ((b AND NOT (push_bit (7 - bit) 1)) OR
                         ucast (push_bit (7 - bit) (c AND 0x1))) of
                   Inl e \<Rightarrow> Inl e
                 | Inr buf' \<Rightarrow> Inr (dsc\<lparr>data := buf'\<rparr>)))
      else if cf = LV_IMG_CF_INDEXED_2BIT then
        (let bit = nat ((x AND 3) * 2); x = drop_bit 2 x;
             px = uint32_of (drop_bit 2 (w + 3) * y + x)
         in case buf_read buf_u8 (4 * 4 + px) of
              Inl e \<Rightarrow> Inl e
            | Inr b \<Rightarrow>
                (case buf_write buf_u8 (4 * 4 + px)
                        ((b AND NOT (push_bit (6 - bit) 3)) OR
                         ucast (push_bit (6 - bit) (c AND 0x3))) of
                   Inl e \<Rightarrow> Inl e
                 | Inr buf' \<Rightarrow> Inr (dsc\<lparr>data := buf'\<rparr>)))
      else if cf = LV_IMG_CF_INDEXED_4BIT then
        (let bit = nat ((x AND 1) * 4); x = drop_bit 1 x;
             px = uint32_of (drop_bit 1 (w + 1) * y + x)
         in case buf_read buf_u8 (4 * 16 + px) of
              Inl e \<Rightarrow> Inl e
            | Inr b \<Rightarrow>
                (case buf_write buf_u8 (4 * 16 + px)
                        ((b AND NOT (push_bit (4 - bit) 0xF)) OR
                         ucast (push_bit (4 - bit) (c AND 0xF))) of
                   Inl e \<Rightarrow> Inl e
                 | Inr buf' \<Rightarrow> Inr (dsc\<lparr>data := buf'\<rparr>)))
      else if cf = LV_IMG_CF_INDEXED_8BIT then
        (let px = uint32_of (w * y + x)
         in case buf_write buf_u8 (4 * 256 + px) (ucast c) of
              Inl e \<Rightarrow> Inl e
            | Inr buf' \<Rightarrow> Inr (dsc\<lparr>data := buf'\<rparr>))
      else Inr dsc)"

definition lv_img_buf_set_px_alpha ::
  "lv_conf \<Rightarrow> lv_img_dsc_t \<Rightarrow> lv_coord_t \<Rightarrow> lv_coord_t \<Rightarrow> lv_opa_t
     \<Rightarrow> error + lv_img_dsc_t" where
  "lv_img_buf_set_px_alpha conf dsc x0 y opa0 =
     (let w = int (hdr_w (header dsc)); cf = hdr_cf (header dsc); x = x0;
          buf_u8 = data dsc
      in
      if cf = LV_IMG_CF_TRUE_COLOR_ALPHA then
        (let px_size = int (drop_bit 3 (lv_img_color_format_get_px_size conf cf));
             px = uint32_of (w * y * px_size + x * px_size)
         in case buf_write buf_u8 (uint32_of (int px + px_size - 1)) opa0 of
              Inl e \<Rightarrow> Inl e
            | Inr buf' \<Rightarrow> Inr (dsc\<lparr>data := buf'\<rparr>))
      else if cf = LV_IMG_CF_ALPHA_1BIT then
        (let opa = drop_bit 7 opa0; bit = nat (x AND 7); x = drop_bit 3 x;
             px = uint32_of (drop_bit 3 (w + 7) * y + x)
         in case buf_read buf_u8 px of
              Inl e \<Rightarrow> Inl e
            | Inr b \<Rightarrow>
                (case buf_write buf_u8 px
                        ((b AND NOT (push_bit (7 - bit) 1)) OR
                         push_bit (7 - bit) (opa AND 0x1)) of
                   Inl e \<Rightarrow> Inl e
                 | Inr buf' \<Rightarrow> Inr (dsc\<lparr>data := buf'\<rparr>)))
      else if cf = LV_IMG_CF_ALPHA_2BIT then
        (let opa = drop_bit 6 opa0; bit = nat ((x AND 3) * 2); x = drop_bit 2 x;
             px = uint32_of (drop_bit 2 (w + 3) * y + x)
         in case buf_read buf_u8 px of
              Inl e \<Rightarrow> Inl e
            | Inr b \<Rightarrow>
                (case buf_write buf_u8 px
                        ((b AND NOT (push_bit (6 - bit) 3)) OR
                         push_bit (6 - bit) (opa AND 0x3)) of
                   Inl e \<Rightarrow> Inl e
                 | Inr buf' \<Rightarrow> Inr (dsc\<lparr>data := buf'\<rparr>)))
      else if cf = LV_IMG_CF_ALPHA_4BIT then
        (let opa = drop_bit 4 opa0; bit = nat ((x AND 1) * 4); x = drop_bit 1 x;
             px = uint32_of (drop_bit 1 (w + 1) * y + x)
         in case buf_read buf_u8 px of
              Inl e \<Rightarrow> Inl e
            | Inr b \<Rightarrow>
                (case buf_write buf_u8 px
                        ((b AND NOT (push_bit (4 - bit) 0xF)) OR
                         push_bit (4 - bit) (opa AND 0xF)) of
                   Inl e \<Rightarrow> Inl e
                 | Inr buf' \<Rightarrow> Inr (dsc\<lparr>data := buf'\<rparr>)))
      else if cf = LV_IMG_CF_ALPHA_8BIT then
        (let px = uint32_of (w * y + x)
         in case buf_write buf_u8 px opa0 of
              Inl e \<Rightarrow> Inl e
            | Inr buf' \<Rightarrow> Inr (dsc\<lparr>data := buf'\<rparr>))
      else Inr dsc)"

text \<open>
  \<open>lv_color_to32\<close> belongs to the absent \<open>lv_color.h\<close> and is a parameter. The
  warning and early return of the source is the result \<open>Inl InvalidId\<close>.
\<close>

definition lv_img_buf_set_palette ::
  "(lv_color_t \<Rightarrow> 32 word) \<Rightarrow> lv_img_dsc_t \<Rightarrow> uint8_t \<Rightarrow> lv_color_t
     \<Rightarrow> error + lv_img_dsc_t" where
  "lv_img_buf_set_palette lv_color_to32 dsc pal_id c =
     (let cf = hdr_cf (header dsc) in
      if (cf = LV_IMG_CF_ALPHA_1BIT \<and> pal_id > 1) \<or>
         (cf = LV_IMG_CF_ALPHA_2BIT \<and> pal_id > 3) \<or>
         (cf = LV_IMG_CF_ALPHA_4BIT \<and> pal_id > 15) \<or>
         cf = LV_IMG_CF_ALPHA_8BIT
      then Inl InvalidId
      else
        (let c32 = lv_color_to32 c; buf = data dsc
         in case buf_write_n buf (unat pal_id * 4) (bytes_of_color 4 c32) of
              Inl e \<Rightarrow> Inl e
            | Inr buf' \<Rightarrow> Inr (dsc\<lparr>data := buf'\<rparr>)))"

subsection \<open>Areas\<close>

text \<open>
  Modelled from the spec: \<open>lv_area_t\<close> and its operations (\<open>lv_area.h\<close>,
  \<open>lv_area.c\<close>) are not among the sources. An area is an axis-aligned integer rectangle
  given by its corners, both inclusive; the operations are intersect (empty or ok), width
  and height. \<open>lv_area_intersect\<close> is \<open>None\<close> where the source's returns \<open>false\<close>.
\<close>

record lv_area_t =
  area_x1 :: lv_coord_t
  area_y1 :: lv_coord_t
  area_x2 :: lv_coord_t
  area_y2 :: lv_coord_t

definition lv_area_get_width :: "lv_area_t \<Rightarrow> lv_coord_t" where
  "lv_area_get_width a = area_x2 a - area_x1 a + 1"

definition lv_area_get_height :: "lv_area_t \<Rightarrow> lv_coord_t" where
  "lv_area_get_height a = area_y2 a - area_y1 a + 1"

definition lv_area_set_height :: "lv_area_t \<Rightarrow> lv_coord_t \<Rightarrow> lv_area_t" where
  "lv_area_set_height a h = a\<lparr>area_y2 := area_y1 a + h - 1\<rparr>"

definition lv_area_intersect :: "lv_area_t \<Rightarrow> lv_area_t \<Rightarrow> lv_area_t option" where
  "lv_area_intersect a1 a2 =
     (let res = \<lparr>area_x1 = max (area_x1 a1) (area_x1 a2), area_y1 = max (area_y1 a1) (area_y1 a2),
                 area_x2 = min (area_x2 a1) (area_x2 a2), area_y2 = min (area_y2 a1) (area_y2 a2)\<rparr>
      in if area_x1 res > area_x2 res \<or> area_y1 res > area_y2 res then None else Some res)"

subsection \<open>The collaborators of the compositor\<close>

datatype lv_mask_res_t = LV_MASK_RES_FULL_TRANSP | LV_MASK_RES_FULL_COVER | LV_MASK_RES_CHANGED

datatype lv_blend_mode_t = LV_BLEND_MODE_NORMAL

text \<open>The arguments of one call of \<open>lv_blend_map\<close>; \<open>bl_mask = None\<close> is the null mask.\<close>

record blend_call =
  bl_clip_area :: lv_area_t
  bl_map_area :: lv_area_t
  bl_map_buf :: "lv_color_t list"
  bl_mask :: "lv_opa_t list option"
  bl_mask_res :: lv_mask_res_t
  bl_opa :: lv_opa_t
  bl_mode :: lv_blend_mode_t

text \<open>
  What \<open>lv_draw_map\<close> takes from its surroundings: the area of the buffer of the
  display being refreshed, the mask stack (\<open>lv_draw_mask_get_cnt\<close>,
  \<open>lv_draw_mask_apply\<close>, which returns its verdict and the attenuated row),
  \<open>lv_color_mix\<close>, the blend primitive as a function on the destination \<open>'d\<close>, and the
  contents of the two uninitialised arrays \<open>map2\<close> and \<open>mask_buf\<close> on entry.
\<close>

record 'd draw_env =
  disp_area :: lv_area_t
  mask_cnt :: nat
  mask_apply :: "lv_opa_t list \<Rightarrow> lv_coord_t \<Rightarrow> lv_coord_t \<Rightarrow> lv_coord_t
                   \<Rightarrow> lv_mask_res_t \<times> lv_opa_t list"
  color_mix :: "lv_color_t \<Rightarrow> lv_color_t \<Rightarrow> lv_opa_t \<Rightarrow> lv_color_t"
  blend_map :: "blend_call \<Rightarrow> 'd \<Rightarrow> 'd"
  stack_color :: "nat \<Rightarrow> lv_color_t"
  stack_opa :: "nat \<Rightarrow> lv_opa_t"

subsection \<open>The compositor: \<open>lv_draw_map\<close>\<close>

definition buf_read_int :: "uint8_t list \<Rightarrow> int \<Rightarrow> error + uint8_t" where
  "buf_read_int buf i =
     (if 0 \<le> i \<and> i < int (length buf) then Inr (buf ! nat i) else Inl OutOfBounds)"

definition arr_write :: "'a list \<Rightarrow> nat \<Rightarrow> 'a \<Rightarrow> error + 'a list" where
  "arr_write xs i v = (if i < length xs then Inr (xs[i := v]) else Inl OutOfBounds)"

text \<open>\<open>n\<close> elements of an array from index \<open>start\<close> replaced (\<open>memset\<close>, the mask stack).\<close>

definition arr_write_n :: "'a list \<Rightarrow> nat \<Rightarrow> nat \<Rightarrow> 'a list \<Rightarrow> error + 'a list" where
  "arr_write_n xs start n new =
     (if start + n \<le> length xs
      then Inr (take start xs @ take n (new @ take n (drop start xs)) @ drop (start + n) xs)
      else Inl OutOfBounds)"

text \<open>
  The pixel at \<open>map_px\<close>, by colour depth:
  \<open>c.full = map_px[0] + (map_px[1] << 8) + (map_px[2] << 16)\<close> for depth 32.
\<close>

definition read_px_color :: "lv_conf \<Rightarrow> uint8_t list \<Rightarrow> int \<Rightarrow> error + lv_color_t" where
  "read_px_color conf map_p map_px =
     (case LV_COLOR_DEPTH conf of
        Depth8 \<Rightarrow>
          (case buf_read_int map_p map_px of Inl e \<Rightarrow> Inl e | Inr b0 \<Rightarrow> Inr (ucast b0))
      | Depth16 \<Rightarrow>
          (case buf_read_int map_p map_px of Inl e \<Rightarrow> Inl e | Inr b0 \<Rightarrow>
           case buf_read_int map_p (map_px + 1) of Inl e \<Rightarrow> Inl e | Inr b1 \<Rightarrow>
             Inr (ucast b0 + push_bit 8 (ucast b1)))
      | Depth32 \<Rightarrow>
          (case buf_read_int map_p map_px of Inl e \<Rightarrow> Inl e | Inr b0 \<Rightarrow>
           case buf_read_int map_p (map_px + 1) of Inl e \<Rightarrow> Inl e | Inr b1 \<Rightarrow>
           case buf_read_int map_p (map_px + 2) of Inl e \<Rightarrow> Inl e | Inr b2 \<Rightarrow>
             Inr (ucast b0 + push_bit 8 (ucast b1) + push_bit 16 (ucast b2))))"

text \<open>The cast \<open>(lv_color_t *)map_p\<close> of the fast path: the bytes taken as colours.\<close>

definition colors_of_bytes :: "lv_conf \<Rightarrow> uint8_t list \<Rightarrow> lv_color_t list" where
  "colors_of_bytes conf map_p =
     map (\<lambda>i. color_of_bytes (take (sizeof_lv_color_t conf) (drop (i * sizeof_lv_color_t conf) map_p)))
       [0..<length map_p div sizeof_lv_color_t conf]"

text \<open>
  One pass of the inner loop over \<open>x\<close>: the pixel at \<open>map_px\<close> goes to index \<open>px_i\<close> of
  \<open>mask_buf\<close> and \<open>map2\<close>. The two \<open>continue\<close> statements are the branches that return
  without writing \<open>map2\<close>.
\<close>

definition draw_map_pixel ::
  "lv_conf \<Rightarrow> 'd draw_env \<Rightarrow> uint8_t list \<Rightarrow> bool \<Rightarrow> bool \<Rightarrow> lv_color_t \<Rightarrow> lv_opa_t
     \<Rightarrow> int \<Rightarrow> nat \<Rightarrow> lv_color_t list \<Rightarrow> lv_opa_t list
     \<Rightarrow> error + (lv_color_t list \<times> lv_opa_t list)" where
  "draw_map_pixel conf env map_p chroma_key alpha_byte recolor recolor_opa map_px px_i
       map2_buf mask_buf =
     (case
        (if alpha_byte then
           (case buf_read_int map_p (map_px + int (LV_IMG_PX_SIZE_ALPHA_BYTE conf) - 1) of
              Inl e \<Rightarrow> Inl e
            | Inr px_opa \<Rightarrow>
                (case arr_write mask_buf px_i px_opa of
                   Inl e \<Rightarrow> Inl e
                 | Inr mask_buf' \<Rightarrow> Inr (mask_buf', px_opa < LV_OPA_MIN conf)))
         else
           (case arr_write mask_buf px_i LV_OPA_COVER of
              Inl e \<Rightarrow> Inl e
            | Inr mask_buf' \<Rightarrow> Inr (mask_buf', False)))
      of
        Inl e \<Rightarrow> Inl e
      | Inr (mask_buf', skip) \<Rightarrow>
          if skip then Inr (map2_buf, mask_buf')
          else
            (case read_px_color conf map_p map_px of
               Inl e \<Rightarrow> Inl e
             | Inr c \<Rightarrow>
                 if chroma_key \<and> c = LV_COLOR_TRANSP conf then
                   (case arr_write mask_buf' px_i LV_OPA_TRANSP of
                      Inl e \<Rightarrow> Inl e
                    | Inr mask_buf'' \<Rightarrow> Inr (map2_buf, mask_buf''))
                 else
                   (let c' = (if recolor_opa \<noteq> 0 then color_mix env recolor c recolor_opa
                              else c)
                    in case arr_write map2_buf px_i c' of
                         Inl e \<Rightarrow> Inl e
                       | Inr map2_buf' \<Rightarrow> Inr (map2_buf', mask_buf'))))"

text \<open>
  The inner loop, \<open>n\<close> pixels to go:
  \<open>for(x = 0; x < width; x++, map_px += px_size_byte, px_i++)\<close>.
\<close>

fun draw_map_line ::
  "lv_conf \<Rightarrow> 'd draw_env \<Rightarrow> uint8_t list \<Rightarrow> bool \<Rightarrow> bool \<Rightarrow> lv_color_t \<Rightarrow> lv_opa_t
     \<Rightarrow> nat \<Rightarrow> nat \<Rightarrow> int \<Rightarrow> nat \<Rightarrow> lv_color_t list \<Rightarrow> lv_opa_t list
     \<Rightarrow> error + (nat \<times> lv_color_t list \<times> lv_opa_t list)" where
  "draw_map_line conf env map_p chroma_key alpha_byte recolor recolor_opa px_size_byte 0
       map_px px_i map2_buf mask_buf = Inr (px_i, map2_buf, mask_buf)"
| "draw_map_line conf env map_p chroma_key alpha_byte recolor recolor_opa px_size_byte (Suc n)
       map_px px_i map2_buf mask_buf =
     (case draw_map_pixel conf env map_p chroma_key alpha_byte recolor recolor_opa map_px px_i
             map2_buf mask_buf of
        Inl e \<Rightarrow> Inl e
      | Inr (map2_buf', mask_buf') \<Rightarrow>
          draw_map_line conf env map_p chroma_key alpha_byte recolor recolor_opa px_size_byte n
            (map_px + int px_size_byte) (px_i + 1) map2_buf' mask_buf')"

text \<open>The variables that the outer loop over \<open>y\<close> carries from row to row.\<close>

record 'd rows_state =
  rs_map_buf_tmp :: int
  rs_px_i :: nat
  rs_map2 :: "lv_color_t list"
  rs_mask_buf :: "lv_opa_t list"
  rs_blend_area :: lv_area_t
  rs_mask_res :: lv_mask_res_t
  rs_dest :: 'd

text \<open>
  The body of the outer loop for row \<open>y\<close>. \<open>draw_area\<close> is relative to the display
  buffer, \<open>sizeof(mask_buf)\<close> is \<open>LV_HOR_RES_MAX\<close>.
\<close>

definition draw_map_row ::
  "lv_conf \<Rightarrow> 'd draw_env \<Rightarrow> lv_area_t \<Rightarrow> lv_area_t \<Rightarrow> uint8_t list \<Rightarrow> bool \<Rightarrow> bool
     \<Rightarrow> lv_color_t \<Rightarrow> lv_opa_t \<Rightarrow> nat \<Rightarrow> lv_coord_t \<Rightarrow> lv_coord_t \<Rightarrow> 'd rows_state
     \<Rightarrow> error + 'd rows_state" where
  "draw_map_row conf env clip_area draw_area map_p chroma_key alpha_byte recolor recolor_opa
       px_size_byte map_w y st =
     (let other_mask_cnt = mask_cnt env;
          width = nat (lv_area_get_width draw_area);
          map_px = rs_map_buf_tmp st;
          px_i_start = rs_px_i st;
          mask_res0 = (if alpha_byte \<or> chroma_key then LV_MASK_RES_CHANGED
                       else LV_MASK_RES_FULL_COVER)
      in
      case draw_map_line conf env map_p chroma_key alpha_byte recolor recolor_opa px_size_byte
             width map_px (rs_px_i st) (rs_map2 st) (rs_mask_buf st) of
        Inl e \<Rightarrow> Inl e
      | Inr (px_i, map2_buf, mask_buf) \<Rightarrow>
          (case
             (if other_mask_cnt \<noteq> 0 then
                (case mask_apply env (take width (drop px_i_start mask_buf))
                        (area_x1 draw_area + area_x1 (disp_area env))
                        (y + area_y1 draw_area + area_y1 (disp_area env))
                        (lv_area_get_width draw_area) of
                   (mask_res_sub, row) \<Rightarrow>
                     (case arr_write_n mask_buf px_i_start width row of
                        Inl e \<Rightarrow> Inl e
                      | Inr mask_buf' \<Rightarrow>
                          if mask_res_sub = LV_MASK_RES_FULL_TRANSP then
                            (case arr_write_n mask_buf' px_i_start width (replicate width 0x00) of
                               Inl e \<Rightarrow> Inl e
                             | Inr mask_buf'' \<Rightarrow> Inr (mask_buf'', LV_MASK_RES_CHANGED))
                          else if mask_res_sub = LV_MASK_RES_CHANGED then
                            Inr (mask_buf', LV_MASK_RES_CHANGED)
                          else Inr (mask_buf', mask_res0)))
              else Inr (mask_buf, mask_res0))
           of
             Inl e \<Rightarrow> Inl e
           | Inr (mask_buf, mask_res) \<Rightarrow>
               (let map_buf_tmp = rs_map_buf_tmp st + map_w * int px_size_byte;
                    blend_area = rs_blend_area st
                in
                if px_i + width < LV_HOR_RES_MAX conf then
                  Inr (st\<lparr>rs_map_buf_tmp := map_buf_tmp, rs_px_i := px_i, rs_map2 := map2_buf,
                          rs_mask_buf := mask_buf,
                          rs_blend_area := blend_area\<lparr>area_y2 := area_y2 blend_area + 1\<rparr>,
                          rs_mask_res := mask_res\<rparr>)
                else
                  Inr (st\<lparr>rs_map_buf_tmp := map_buf_tmp, rs_px_i := 0, rs_map2 := map2_buf,
                          rs_mask_buf :=
                            (if other_mask_cnt \<noteq> 0 then replicate (LV_HOR_RES_MAX conf) 0xFF
                             else mask_buf),
                          rs_blend_area :=
                            blend_area\<lparr>area_y1 := area_y2 blend_area + 1,
                                        area_y2 := area_y2 blend_area + 1\<rparr>,
                          rs_mask_res := mask_res,
                          rs_dest :=
                            blend_map env
                              \<lparr>bl_clip_area = clip_area, bl_map_area = blend_area,
                               bl_map_buf = map2_buf, bl_mask = Some mask_buf,
                               bl_mask_res = mask_res, bl_opa = LV_OPA_COVER,
                               bl_mode = LV_BLEND_MODE_NORMAL\<rparr>
                              (rs_dest st)\<rparr>))))"

text \<open>The outer loop, \<open>n\<close> rows to go: \<open>for(y = 0; y < height; y++)\<close>.\<close>

fun draw_map_rows ::
  "lv_conf \<Rightarrow> 'd draw_env \<Rightarrow> lv_area_t \<Rightarrow> lv_area_t \<Rightarrow> uint8_t list \<Rightarrow> bool \<Rightarrow> bool
     \<Rightarrow> lv_color_t \<Rightarrow> lv_opa_t \<Rightarrow> nat \<Rightarrow> lv_coord_t \<Rightarrow> nat \<Rightarrow> lv_coord_t \<Rightarrow> 'd rows_state
     \<Rightarrow> error + 'd rows_state" where
  "draw_map_rows conf env clip_area draw_area map_p chroma_key alpha_byte recolor recolor_opa
       px_size_byte map_w 0 y st = Inr st"
| "draw_map_rows conf env clip_area draw_area map_p chroma_key alpha_byte recolor recolor_opa
       px_size_byte map_w (Suc n) y st =
     (case draw_map_row conf env clip_area draw_area map_p chroma_key alpha_byte recolor
             recolor_opa px_size_byte map_w y st of
        Inl e \<Rightarrow> Inl e
      | Inr st' \<Rightarrow>
          draw_map_rows conf env clip_area draw_area map_p chroma_key alpha_byte recolor
            recolor_opa px_size_byte map_w n (y + 1) st')"

text \<open>
  The general path (the \<open>else\<close> branch of \<open>lv_draw_map\<close>): set-up, the loop over the
  rows of \<open>draw_area\<close>, and the flush of the last block.
\<close>

definition lv_draw_map_general ::
  "lv_conf \<Rightarrow> 'd draw_env \<Rightarrow> lv_area_t \<Rightarrow> lv_area_t \<Rightarrow> lv_area_t \<Rightarrow> uint8_t list
     \<Rightarrow> bool \<Rightarrow> bool \<Rightarrow> lv_color_t \<Rightarrow> lv_opa_t \<Rightarrow> 'd \<Rightarrow> error + 'd" where
  "lv_draw_map_general conf env map_area clip_area draw_area map_p chroma_key alpha_byte
       recolor recolor_opa dest =
     (let other_mask_cnt = mask_cnt env;
          px_size_byte = (if alpha_byte then LV_IMG_PX_SIZE_ALPHA_BYTE conf
                          else sizeof_lv_color_t conf);
          map2_buf = map (stack_color env) [0..<LV_HOR_RES_MAX conf];
          mask_buf = map (stack_opa env) [0..<LV_HOR_RES_MAX conf];
          map_w = lv_area_get_width map_area;
          map_buf_tmp =
            map_w * (area_y1 draw_area - (area_y1 map_area - area_y1 (disp_area env)))
              * int px_size_byte
            + (area_x1 draw_area - (area_x1 map_area - area_x1 (disp_area env)))
              * int px_size_byte;
          blend_x1 = area_x1 draw_area + area_x1 (disp_area env);
          blend_y1 = area_y1 (disp_area env) + area_y1 draw_area;
          blend_area = \<lparr>area_x1 = blend_x1, area_y1 = blend_y1,
                        area_x2 = blend_x1 + lv_area_get_width draw_area - 1,
                        area_y2 = blend_y1\<rparr>;
          mask_buf = (if other_mask_cnt \<noteq> 0 then replicate (LV_HOR_RES_MAX conf) 0xFF
                      else mask_buf)
      in
      case draw_map_rows conf env clip_area draw_area map_p chroma_key alpha_byte recolor
             recolor_opa px_size_byte map_w (nat (lv_area_get_height draw_area)) 0
             \<lparr>rs_map_buf_tmp = map_buf_tmp, rs_px_i = 0, rs_map2 = map2_buf, rs_mask_buf = mask_buf,
              rs_blend_area = blend_area,
              rs_mask_res = (if alpha_byte \<or> chroma_key then LV_MASK_RES_CHANGED
                             else LV_MASK_RES_FULL_COVER),
              rs_dest = dest\<rparr> of
        Inl e \<Rightarrow> Inl e
      | Inr st \<Rightarrow>
          if area_y1 (rs_blend_area st) \<noteq> area_y2 (rs_blend_area st) then
            Inr (blend_map env
                   \<lparr>bl_clip_area = clip_area,
                    bl_map_area = (rs_blend_area st)\<lparr>area_y2 := area_y2 (rs_blend_area st) - 1\<rparr>,
                    bl_map_buf = rs_map2 st, bl_mask = Some (rs_mask_buf st),
                    bl_mask_res = rs_mask_res st, bl_opa = LV_OPA_COVER,
                    bl_mode = LV_BLEND_MODE_NORMAL\<rparr>
                   (rs_dest st))
          else Inr (rs_dest st))"

text \<open>The fast path: one call of the blend primitive on the whole map, with a null mask.\<close>

definition lv_draw_map_fast ::
  "lv_conf \<Rightarrow> 'd draw_env \<Rightarrow> lv_area_t \<Rightarrow> lv_area_t \<Rightarrow> uint8_t list \<Rightarrow> 'd \<Rightarrow> 'd" where
  "lv_draw_map_fast conf env map_area clip_area map_p dest =
     blend_map env
       \<lparr>bl_clip_area = clip_area, bl_map_area = map_area,
        bl_map_buf = colors_of_bytes conf map_p, bl_mask = None,
        bl_mask_res = LV_MASK_RES_FULL_COVER, bl_opa = LV_OPA_COVER,
        bl_mode = LV_BLEND_MODE_NORMAL\<rparr>
       dest"

definition lv_draw_map ::
  "lv_conf \<Rightarrow> 'd draw_env \<Rightarrow> lv_area_t \<Rightarrow> lv_area_t \<Rightarrow> uint8_t list \<Rightarrow> lv_opa_t
     \<Rightarrow> bool \<Rightarrow> bool \<Rightarrow> lv_color_t \<Rightarrow> lv_opa_t \<Rightarrow> 'd \<Rightarrow> error + 'd" where
  "lv_draw_map conf env map_area clip_area map_p opa0 chroma_key alpha_byte recolor
       recolor_opa dest =
     (if opa0 < LV_OPA_MIN conf then Inr dest
      else
        (let opa = (if opa0 > LV_OPA_MAX conf then LV_OPA_COVER else opa0) in
         case lv_area_intersect map_area clip_area of
           None \<Rightarrow> Inr dest
         | Some draw_area0 \<Rightarrow>
             (let disp = disp_area env;
                  draw_area = \<lparr>area_x1 = area_x1 draw_area0 - area_x1 disp,
                               area_y1 = area_y1 draw_area0 - area_y1 disp,
                               area_x2 = area_x2 draw_area0 - area_x1 disp,
                               area_y2 = area_y2 draw_area0 - area_y1 disp\<rparr>;
                  other_mask_cnt = mask_cnt env
              in
              if other_mask_cnt = 0 \<and> chroma_key = False \<and> alpha_byte = False \<and>
                 opa = LV_OPA_COVER \<and> recolor_opa = LV_OPA_TRANSP
              then Inr (lv_draw_map_fast conf env map_area clip_area map_p dest)
              else lv_draw_map_general conf env map_area clip_area draw_area map_p chroma_key
                     alpha_byte recolor recolor_opa dest)))"

subsection \<open>The entry point: \<open>lv_img_draw_core\<close>\<close>

text \<open>
  The cache entry that \<open>lv_img_cache_open\<close> returns, as far as the entry point reads
  it: the colour format of the decoded header, the error message or none, the decoded
  image or none, and the scan-line reader (\<open>lv_img_decoder_read_line\<close> with its
  arguments \<open>x\<close>, \<open>y\<close> and \<open>len\<close>), which gives the row buffer after a successful read and
  \<open>None\<close> for a result other than \<open>LV_RES_OK\<close>.
\<close>

record lv_img_cache_entry_t =
  dec_cf :: lv_img_cf_t
  dec_error_msg :: "string option"
  dec_img_data :: "uint8_t list option"
  dec_read_line :: "lv_coord_t \<Rightarrow> lv_coord_t \<Rightarrow> lv_coord_t \<Rightarrow> uint8_t list option"

text \<open>
  The calls that the entry point makes, in order: opening the cache entry (with its
  success), closing the decoder, reading a scan-line (with its success), the fallback
  drawing of a rectangle and a label, and each call of \<open>lv_draw_map\<close> with its area and
  its two flags.
\<close>

datatype event =
    EvCacheOpen bool
  | EvDecoderClose
  | EvReadLine lv_coord_t lv_coord_t lv_coord_t bool
  | EvDrawRect
  | EvDrawLabel string
  | EvDrawMap lv_area_t bool bool

record 'd world =
  w_dest :: 'd
  w_events :: "event list"

definition log_events :: "event list \<Rightarrow> 'd world \<Rightarrow> 'd world" where
  "log_events evs w = w\<lparr>w_events := w_events w @ evs\<rparr>"

text \<open>
  The cache and the fallback drawing (\<open>lv_draw_rect\<close> then \<open>lv_draw_label\<close> with a
  text) are collaborators outside the sources.
\<close>

record 'd core_env =
  cache_open :: "uint8_t list \<Rightarrow> lv_style_t \<Rightarrow> lv_img_cache_entry_t option"
  draw_fallback :: "lv_area_t \<Rightarrow> lv_area_t \<Rightarrow> string \<Rightarrow> 'd \<Rightarrow> 'd"

definition fallback :: "'d core_env \<Rightarrow> lv_area_t \<Rightarrow> lv_area_t \<Rightarrow> string \<Rightarrow> 'd world \<Rightarrow> 'd world" where
  "fallback cenv coords mask_area txt w =
     log_events [EvDrawRect, EvDrawLabel txt]
       (w\<lparr>w_dest := draw_fallback cenv coords mask_area txt (w_dest w)\<rparr>)"

text \<open>
  The loop over the rows of the intersection when the image is read line by line, \<open>n\<close>
  rows to go: \<open>for(row = mask_com.y1; row <= mask_com.y2; row++)\<close>.
\<close>

fun draw_core_lines ::
  "lv_conf \<Rightarrow> 'd draw_env \<Rightarrow> lv_img_cache_entry_t \<Rightarrow> lv_area_t \<Rightarrow> lv_opa_t \<Rightarrow> bool \<Rightarrow> bool
     \<Rightarrow> lv_style_t \<Rightarrow> lv_coord_t \<Rightarrow> lv_coord_t \<Rightarrow> nat \<Rightarrow> lv_area_t \<Rightarrow> lv_coord_t \<Rightarrow> 'd world
     \<Rightarrow> error + (lv_res_t \<times> 'd world)" where
  "draw_core_lines conf env cdsc mask_area opa chroma_keyed alpha_byte style width x 0 line y w =
     Inr (LV_RES_OK, w)"
| "draw_core_lines conf env cdsc mask_area opa chroma_keyed alpha_byte style width x (Suc n) line y w =
     (case dec_read_line cdsc x y width of
        None \<Rightarrow> Inr (LV_RES_INV, log_events [EvReadLine x y width False, EvDecoderClose] w)
      | Some buf \<Rightarrow>
          (case lv_draw_map conf env line mask_area buf opa chroma_keyed alpha_byte
                  (image_color style) (image_intense style) (w_dest w) of
             Inl e \<Rightarrow> Inl e
           | Inr dest \<Rightarrow>
               draw_core_lines conf env cdsc mask_area opa chroma_keyed alpha_byte style width x n
                 (line\<lparr>area_y1 := area_y1 line + 1, area_y2 := area_y2 line + 1\<rparr>) (y + 1)
                 (log_events [EvReadLine x y width True, EvDrawMap line chroma_keyed alpha_byte]
                    (w\<lparr>w_dest := dest\<rparr>))))"

definition lv_img_draw_core ::
  "lv_conf \<Rightarrow> 'd draw_env \<Rightarrow> 'd core_env \<Rightarrow> lv_area_t \<Rightarrow> lv_area_t \<Rightarrow> uint8_t list
     \<Rightarrow> lv_style_t \<Rightarrow> lv_opa_t \<Rightarrow> 'd world \<Rightarrow> error + (lv_res_t \<times> 'd world)" where
  "lv_img_draw_core conf env cenv coords mask_area src style opa_scale w =
     (case lv_area_intersect mask_area coords of
        None \<Rightarrow> Inr (LV_RES_OK, w)
      | Some mask_com \<Rightarrow>
          (let opa = (if opa_scale = LV_OPA_COVER then image_opa style
                      else ucast (drop_bit 8
                             ((ucast (image_opa style) :: 16 word) * ucast opa_scale)))
           in
           case cache_open cenv src style of
             None \<Rightarrow> Inr (LV_RES_INV, log_events [EvCacheOpen False] w)
           | Some cdsc \<Rightarrow>
               (let w = log_events [EvCacheOpen True] w;
                    chroma_keyed = lv_img_color_format_is_chroma_keyed (dec_cf cdsc);
                    alpha_byte = lv_img_color_format_has_alpha (dec_cf cdsc)
                in
                case dec_error_msg cdsc of
                  Some msg \<Rightarrow> Inr (LV_RES_OK, fallback cenv coords mask_area msg w)
                | None \<Rightarrow>
                    (case dec_img_data cdsc of
                       Some img_data \<Rightarrow>
                         (case lv_draw_map conf env coords mask_area img_data opa chroma_keyed
                                 alpha_byte (image_color style) (image_intense style)
                                 (w_dest w) of
                            Inl e \<Rightarrow> Inl e
                          | Inr dest \<Rightarrow>
                              Inr (LV_RES_OK,
                                   log_events [EvDrawMap coords chroma_keyed alpha_byte]
                                     (w\<lparr>w_dest := dest\<rparr>)))
                     | None \<Rightarrow>
                         (let width = lv_area_get_width mask_com;
                              line = lv_area_set_height mask_com 1;
                              x = area_x1 mask_com - area_x1 coords;
                              y = area_y1 mask_com - area_y1 coords
                          in draw_core_lines conf env cdsc mask_area opa chroma_keyed alpha_byte
                               style width x
                               (nat (area_y2 mask_com - area_y1 mask_com + 1)) line y w)))))"

text \<open>The public entry. \<open>src\<close> is \<open>None\<close> for the null pointer.\<close>

definition lv_draw_img ::
  "lv_conf \<Rightarrow> 'd draw_env \<Rightarrow> 'd core_env \<Rightarrow> lv_area_t \<Rightarrow> lv_area_t \<Rightarrow> uint8_t list option
     \<Rightarrow> lv_style_t \<Rightarrow> lv_opa_t \<Rightarrow> 'd world \<Rightarrow> error + 'd world" where
  "lv_draw_img conf env cenv coords mask_area src style opa_scale w =
     (case src of
        None \<Rightarrow> Inr (fallback cenv coords mask_area (''No'' @ [CHR 0x0A] @ ''data'') w)
      | Some src' \<Rightarrow>
          (case lv_img_draw_core conf env cenv coords mask_area src' style opa_scale w of
             Inl e \<Rightarrow> Inl e
           | Inr (res, w') \<Rightarrow>
               if res = LV_RES_INV
               then Inr (fallback cenv coords mask_area (''No'' @ [CHR 0x0A] @ ''data'') w')
               else Inr w'))"

subsection \<open>The row-streaming pass, described\<close>

text \<open>
  Two definitions to state what the row-streaming loop does: the events of \<open>k\<close> rows
  read and composited in order, from row \<open>y\<close> with the line area \<open>line\<close>; and the
  destination after compositing the first \<open>k\<close> rows from their buffers \<open>bufs\<close>, with no
  reading.
\<close>

fun line_events ::
  "lv_coord_t \<Rightarrow> lv_coord_t \<Rightarrow> lv_coord_t \<Rightarrow> lv_area_t \<Rightarrow> bool \<Rightarrow> bool \<Rightarrow> nat \<Rightarrow> event list" where
  "line_events x y width line chroma_keyed alpha_byte 0 = []"
| "line_events x y width line chroma_keyed alpha_byte (Suc k) =
     [EvReadLine x y width True, EvDrawMap line chroma_keyed alpha_byte] @
     line_events x (y + 1) width
       (line\<lparr>area_y1 := area_y1 line + 1, area_y2 := area_y2 line + 1\<rparr>)
       chroma_keyed alpha_byte k"

fun compose_lines ::
  "lv_conf \<Rightarrow> 'd draw_env \<Rightarrow> lv_area_t \<Rightarrow> lv_opa_t \<Rightarrow> bool \<Rightarrow> bool \<Rightarrow> lv_style_t
     \<Rightarrow> (nat \<Rightarrow> uint8_t list) \<Rightarrow> nat \<Rightarrow> lv_area_t \<Rightarrow> 'd \<Rightarrow> error + 'd" where
  "compose_lines conf env mask_area opa chroma_keyed alpha_byte style bufs 0 line dest = Inr dest"
| "compose_lines conf env mask_area opa chroma_keyed alpha_byte style bufs (Suc k) line dest =
     (case lv_draw_map conf env line mask_area (bufs 0) opa chroma_keyed alpha_byte
             (image_color style) (image_intense style) dest of
        Inl e \<Rightarrow> Inl e
      | Inr dest' \<Rightarrow>
          compose_lines conf env mask_area opa chroma_keyed alpha_byte style (\<lambda>j. bufs (Suc j)) k
            (line\<lparr>area_y1 := area_y1 line + 1, area_y2 := area_y2 line + 1\<rparr>) dest')"

subsection \<open>Bit-packed rows as the specification describes them\<close>

text \<open>
  These two definitions follow the words of the specification, not the source: rows are
  byte-aligned with a stride of \<open>ceil (width * bits_per_pixel / 8)\<close> bytes, and a pixel
  is a field of \<open>bpp\<close> bits, most significant bits first within a byte. \<open>raw_px\<close> is
  the number stored for pixel \<open>(x, y)\<close>, by division and remainder. The properties
  below compare the shifts and masks of the source with them.
\<close>

definition row_stride :: "nat \<Rightarrow> nat \<Rightarrow> nat" where
  "row_stride bpp w = (w * bpp + 7) div 8"

definition raw_px :: "nat \<Rightarrow> uint8_t list \<Rightarrow> nat \<Rightarrow> nat \<Rightarrow> nat \<Rightarrow> nat" where
  "raw_px bpp buf w x y =
     (unat (buf ! (row_stride bpp w * y + x * bpp div 8)) div 2 ^ (8 - bpp - x * bpp mod 8))
       mod 2 ^ bpp"

text \<open>
  The buffer layout of the specification: the palette segment of an indexed format
  (2, 4, 16 or 256 entries of four bytes), then the pixel rows.
\<close>

fun palette_bytes :: "lv_img_cf_t \<Rightarrow> nat" where
  "palette_bytes LV_IMG_CF_INDEXED_1BIT = 4 * 2"
| "palette_bytes LV_IMG_CF_INDEXED_2BIT = 4 * 4"
| "palette_bytes LV_IMG_CF_INDEXED_4BIT = 4 * 16"
| "palette_bytes LV_IMG_CF_INDEXED_8BIT = 4 * 256"
| "palette_bytes _ = 0"

definition img_buf_size :: "lv_conf \<Rightarrow> lv_img_cf_t \<Rightarrow> nat \<Rightarrow> nat \<Rightarrow> nat" where
  "img_buf_size conf cf w h =
     palette_bytes cf +
     (if cf = LV_IMG_CF_TRUE_COLOR \<or> cf = LV_IMG_CF_TRUE_COLOR_CHROMA_KEYED
      then w * h * sizeof_lv_color_t conf
      else if cf = LV_IMG_CF_TRUE_COLOR_ALPHA then w * h * LV_IMG_PX_SIZE_ALPHA_BYTE conf
      else row_stride (lv_img_color_format_get_px_size conf cf) w * h)"

subsection \<open>A configuration and images to evaluate on\<close>

text \<open>
  A 16-bit configuration: the colour depth and transparent colour of the compiled icons
  of the repository (depth 16, transparent pixels stored as 2016).
\<close>

definition conf16 :: lv_conf where
  "conf16 = \<lparr>LV_COLOR_DEPTH = Depth16, LV_IMG_PX_SIZE_ALPHA_BYTE = 3, LV_HOR_RES_MAX = 480,
     LV_OPA_MIN = 16, LV_OPA_MAX = 251, LV_COLOR_TRANSP = 2016\<rparr>"

definition img :: "lv_img_cf_t \<Rightarrow> nat \<Rightarrow> nat \<Rightarrow> uint8_t list \<Rightarrow> lv_img_dsc_t" where
  "img cf w h buf = \<lparr>header = \<lparr>hdr_cf = cf, hdr_w = w, hdr_h = h\<rparr>, data = buf\<rparr>"

text \<open>
  A destination that records the calls of the blend primitive, a cache that returns a
  given entry, and entries: one that streams rows of two 16-bit pixels and fails at one
  row, one fully decoded, one indexed. \<open>conf8\<close> is an 8-bit configuration with scratch
  arrays of two pixels.
\<close>

definition trace_env :: "blend_call list draw_env" where
  "trace_env =
     \<lparr>disp_area = \<lparr>area_x1 = 0, area_y1 = 0, area_x2 = 479, area_y2 = 319\<rparr>, mask_cnt = 0,
      mask_apply = (\<lambda>m x y len. (LV_MASK_RES_FULL_COVER, m)),
      color_mix = (\<lambda>c1 c2 ratio. c1),
      blend_map = (\<lambda>bc calls. calls @ [bc]),
      stack_color = (\<lambda>i. 0), stack_opa = (\<lambda>i. 0)\<rparr>"

definition no_fallback :: "lv_img_cache_entry_t \<Rightarrow> blend_call list core_env" where
  "no_fallback cdsc =
     \<lparr>cache_open = (\<lambda>src style. Some cdsc), draw_fallback = (\<lambda>coords mask_area txt calls. calls)\<rparr>"

definition stream_entry :: "lv_coord_t \<Rightarrow> lv_img_cache_entry_t" where
  "stream_entry bad =
     \<lparr>dec_cf = LV_IMG_CF_TRUE_COLOR, dec_error_msg = None, dec_img_data = None,
      dec_read_line = (\<lambda>x y len. if y = bad then None else Some [1, 2, 3, 4])\<rparr>"

definition full_entry :: lv_img_cache_entry_t where
  "full_entry =
     \<lparr>dec_cf = LV_IMG_CF_TRUE_COLOR, dec_error_msg = None,
      dec_img_data = Some [1, 2, 3, 4, 5, 6, 7, 8],
      dec_read_line = (\<lambda>x y len. None)\<rparr>"

definition opaque_style :: lv_style_t where
  "opaque_style = \<lparr>image_color = 0, image_intense = 0, image_opa = 255\<rparr>"

definition area :: "int \<Rightarrow> int \<Rightarrow> int \<Rightarrow> int \<Rightarrow> lv_area_t" where
  "area x1 y1 x2 y2 = \<lparr>area_x1 = x1, area_y1 = y1, area_x2 = x2, area_y2 = y2\<rparr>"

definition world0 :: "blend_call list world" where
  "world0 = \<lparr>w_dest = [], w_events = []\<rparr>"

fun fast_calls :: "lv_coord_t \<Rightarrow> nat \<Rightarrow> blend_call list" where
  "fast_calls y 0 = []"
| "fast_calls y (Suc k) =
     \<lparr>bl_clip_area = area 0 0 1 9, bl_map_area = area 0 y 1 y, bl_map_buf = [0x0201, 0x0403],
      bl_mask = None, bl_mask_res = LV_MASK_RES_FULL_COVER, bl_opa = 255,
      bl_mode = LV_BLEND_MODE_NORMAL\<rparr> # fast_calls (y + 1) k"

definition conf8 :: lv_conf where
  "conf8 = \<lparr>LV_COLOR_DEPTH = Depth8, LV_IMG_PX_SIZE_ALPHA_BYTE = 2, LV_HOR_RES_MAX = 2,
     LV_OPA_MIN = 16, LV_OPA_MAX = 251, LV_COLOR_TRANSP = 0x1C\<rparr>"

definition indexed_entry :: lv_img_cache_entry_t where
  "indexed_entry =
     \<lparr>dec_cf = LV_IMG_CF_INDEXED_8BIT, dec_error_msg = None,
      dec_img_data = Some [0x1C, 0x07], dec_read_line = (\<lambda>x y len. None)\<rparr>"

subsection \<open>The destination buffer and the blend primitive\<close>



subsection \<open>The opaque general path, described\<close>




subsection \<open>A 32-bit configuration and a destination to evaluate on\<close>




section \<open>Image source classifier: properties\<close>

text \<open>
  C6. The classifier returns Unknown for the null handle; for a handle with first byte
  \<open>b\<close> it returns Variable when \<open>b < 0x20\<close>, File when \<open>b\<close> is in \<open>0x20..0x7F\<close> and
  Symbol when \<open>b \<ge> 0x80\<close>.
\<close>

theorem classify_by_first_byte:
  "lv_img_src_get_type None = Inr LV_IMG_SRC_UNKNOWN \<and>
   lv_img_src_get_type (Some (b # bs)) =
     Inr (if unat b < 32 then LV_IMG_SRC_VARIABLE
          else if unat b \<le> 127 then LV_IMG_SRC_FILE
          else LV_IMG_SRC_SYMBOL)"
  by (simp add: lv_img_src_get_type_def buf_read_def word_le_nat_alt)

section \<open>Pixel format codec: properties\<close>

subsection \<open>Bit fields and indices\<close>

lemma and7: "(x::int) AND 7 = x mod 8"
  using take_bit_eq_mask [of 3 x] by (simp add: take_bit_eq_mod mask_eq_exp_minus_1)
lemma and3: "(x::int) AND 3 = x mod 4"
  using take_bit_eq_mask [of 2 x] by (simp add: take_bit_eq_mod mask_eq_exp_minus_1)
lemma and1: "(x::int) AND 1 = x mod 2"
  using take_bit_eq_mask [of 1 x] by (simp add: take_bit_eq_mod mask_eq_exp_minus_1)

lemma get_bits_eq:
  "n + k \<le> 8 \<Longrightarrow> drop_bit n ((b::8 word) AND push_bit n (mask k)) = take_bit k (drop_bit n b)"
  by (rule bit_eqI) (auto simp: bit_simps)

lemma unat_take_drop:
  "unat (take_bit k (drop_bit n (b::8 word))) = (unat b div 2 ^ n) mod 2 ^ k"
proof -
  have "unat (take_bit k (drop_bit n b)) = take_bit k (drop_bit n (unat b))"
    by (simp only: unsigned_take_bit_eq unat_drop_bit_eq)
  then show ?thesis
    by (simp only: take_bit_eq_mod drop_bit_eq_div)
qed

lemma unat_get_bits:
  "n + k \<le> 8 \<Longrightarrow>
   unat (drop_bit n ((b::8 word) AND push_bit n (mask k))) = (unat b div 2 ^ n) mod 2 ^ k"
  by (simp only: get_bits_eq unat_take_drop)

lemma m1: "(1::8 word) = mask 1" by simp
lemma m3: "(3::8 word) = mask 2" by (simp add: mask_eq_exp_minus_1)
lemma m15: "(15::8 word) = mask 4" by (simp add: mask_eq_exp_minus_1)

lemma px_index:
  assumes "x < w" "y < h" "w < 2048" "h < 2048" "0 < bpp" "bpp \<le> 8"
  shows "row_stride bpp w * y + x * bpp div 8 < row_stride bpp w * h"
    and "row_stride bpp w * h < 2 ^ 32"
proof -
  have "x * bpp < w * bpp" using assms by simp
  then have a: "x * bpp div 8 < row_stride bpp w"
    unfolding row_stride_def by linarith
  have "Suc y \<le> h" using assms by simp
  then have "row_stride bpp w * Suc y \<le> row_stride bpp w * h"
    by (rule mult_le_mono2)
  with a show "row_stride bpp w * y + x * bpp div 8 < row_stride bpp w * h"
    by simp
  have "w * bpp \<le> 2048 * 8" using assms by (intro mult_le_mono) auto
  then have "row_stride bpp w \<le> 2048" unfolding row_stride_def by linarith
  then have "row_stride bpp w * h \<le> 2048 * 2048" using assms by (intro mult_le_mono) auto
  then show "row_stride bpp w * h < 2 ^ 32" by simp
qed

lemma idx2:
  assumes "x < w" "y < h" "w < 2048" "h < 2048"
  shows "uint32_of (drop_bit 2 (int w + 3) * int y + drop_bit 2 (int x))
           = row_stride 2 w * y + x * 2 div 8"
proof -
  have s: "drop_bit 2 (int w + 3) = int (row_stride 2 w)"
    unfolding row_stride_def drop_bit_eq_div by (simp add: zdiv_int)
  have e: "drop_bit 2 (int x) = int (x * 2 div 8)"
    unfolding drop_bit_eq_div by (simp add: zdiv_int)
  have "row_stride 2 w * y + x * 2 div 8 < 2 ^ 32"
    using px_index [OF assms(1) assms(2) assms(3) assms(4), of 2] by simp
  then have "int (row_stride 2 w * y + x * 2 div 8) < 2 ^ 32"
    by (metis of_nat_less_iff of_nat_numeral of_nat_power)
  then show ?thesis
    unfolding s e uint32_of_def by (simp flip: of_nat_mult of_nat_add)
qed

lemma idx1:
  assumes "x < w" "y < h" "w < 2048" "h < 2048"
  shows "uint32_of (drop_bit 3 (int w + 7) * int y + drop_bit 3 (int x))
           = row_stride 1 w * y + x * 1 div 8"
proof -
  have s: "drop_bit 3 (int w + 7) = int (row_stride 1 w)"
    unfolding row_stride_def drop_bit_eq_div by (simp add: zdiv_int)
  have e: "drop_bit 3 (int x) = int (x * 1 div 8)"
    unfolding drop_bit_eq_div by (simp add: zdiv_int)
  have "row_stride 1 w * y + x * 1 div 8 < 2 ^ 32"
    using px_index [OF assms(1) assms(2) assms(3) assms(4), of 1] by simp
  then have "int (row_stride 1 w * y + x * 1 div 8) < 2 ^ 32"
    by (metis of_nat_less_iff of_nat_numeral of_nat_power)
  then show ?thesis
    unfolding s e uint32_of_def by (simp flip: of_nat_mult of_nat_add)
qed

lemma idx4:
  assumes "x < w" "y < h" "w < 2048" "h < 2048"
  shows "uint32_of (drop_bit 1 (int w + 1) * int y + drop_bit 1 (int x))
           = row_stride 4 w * y + x * 4 div 8"
proof -
  have s: "drop_bit 1 (int w + 1) = int (row_stride 4 w)"
    unfolding row_stride_def drop_bit_eq_div by (simp add: zdiv_int)
  have e: "drop_bit 1 (int x) = int (x * 4 div 8)"
    unfolding drop_bit_eq_div by (simp add: zdiv_int)
  have "row_stride 4 w * y + x * 4 div 8 < 2 ^ 32"
    using px_index [OF assms(1) assms(2) assms(3) assms(4), of 4] by simp
  then have "int (row_stride 4 w * y + x * 4 div 8) < 2 ^ 32"
    by (metis of_nat_less_iff of_nat_numeral of_nat_power)
  then show ?thesis
    unfolding s e uint32_of_def by (simp flip: of_nat_mult of_nat_add)
qed

lemma nat_and7: "nat (int x AND 7) = x mod 8"
proof -
  have "int x mod 8 = int (x mod 8)" by (simp add: zmod_int)
  then show ?thesis by (simp only: and7 nat_int)
qed
lemma nat_and3: "nat (int x AND 3) = x mod 4"
proof -
  have "int x mod 4 = int (x mod 4)" by (simp add: zmod_int)
  then show ?thesis by (simp only: and3 nat_int)
qed
lemma nat_and1: "nat (int x AND 1) = x mod 2"
proof -
  have "int x mod 2 = int (x mod 2)" by (simp add: zmod_int)
  then show ?thesis by (simp only: and1 nat_int)
qed

lemma sh1: "7 - nat (int x AND 7) = 8 - 1 - x * 1 mod 8"
  by (simp add: nat_and7)
lemma sh2: "6 - nat ((int x AND 3) * 2) = 8 - 2 - x * 2 mod 8"
proof -
  have "x * 2 mod 8 = 2 * (x mod 4)" by presburger
  moreover have "nat ((int x AND 3) * 2) = nat (int x AND 3) * 2"
    by (simp add: nat_mult_distrib and3)
  ultimately show ?thesis by (simp add: nat_and3)
qed
lemma sh4: "4 - nat ((int x AND 1) * 4) = 8 - 4 - x * 4 mod 8"
proof -
  have "x * 4 mod 8 = 4 * (x mod 2)" by presburger
  moreover have "nat ((int x AND 1) * 4) = nat (int x AND 1) * 4"
    by (simp add: nat_mult_distrib and1)
  ultimately show ?thesis by (simp add: nat_and1)
qed

lemma field_value:
  "n + k \<le> 8 \<Longrightarrow> m = mask k \<Longrightarrow>
   unat (drop_bit n ((b::uint8_t) AND push_bit n m)) = unat b div 2 ^ n mod 2 ^ k"
  by (simp only: unat_get_bits)

lemma field_nonzero:
  assumes "n \<le> 7"
  shows "(drop_bit n ((b::uint8_t) AND push_bit n 1) \<noteq> 0) = (unat b div 2 ^ n mod 2 ^ 1 = 1)"
proof -
  have "unat (drop_bit n (b AND push_bit n (mask 1))) = unat b div 2 ^ n mod 2 ^ 1"
    using assms by (intro unat_get_bits) simp
  then have "unat (drop_bit n (b AND push_bit n 1)) = unat b div 2 ^ n mod 2"
    by simp
  moreover have "(v \<noteq> 0) = (unat v \<noteq> 0)" for v :: uint8_t
    by (simp add: unat_eq_0)
  ultimately show ?thesis
    by (simp del: drop_bit_and)
qed

lemma in_range:
  "x < w \<Longrightarrow> \<not> int w \<le> int x" "\<not> int x < 0"
  by simp_all

lemma get_px_alpha_1bit:
  assumes cf: "hdr_cf (header dsc) = LV_IMG_CF_ALPHA_1BIT"
    and xy: "x < hdr_w (header dsc)" "y < hdr_h (header dsc)"
    and wh: "hdr_w (header dsc) < 2048" "hdr_h (header dsc) < 2048"
    and len: "row_stride 1 (hdr_w (header dsc)) * hdr_h (header dsc) \<le> length (data dsc)"
  shows "lv_img_buf_get_px_alpha conf dsc (int x) (int y) =
     Inr (if raw_px 1 (data dsc) (hdr_w (header dsc)) x y = 1 then LV_OPA_TRANSP
          else LV_OPA_COVER)"
proof -
  have i: "row_stride 1 (hdr_w (header dsc)) * y + x * 1 div 8 < length (data dsc)"
    using px_index(1) [OF xy wh, of 1] len by simp
  have n: "8 - 1 - x * 1 mod 8 \<le> 7"
    by simp
  show ?thesis
    unfolding lv_img_buf_get_px_alpha_def Let_def raw_px_def
    by (simp only: cf lv_img_cf_t.distinct if_False if_True refl in_range(1) [OF xy(1)]
        in_range(1) [OF xy(2)] in_range(2) idx1 [OF xy wh] sh1 buf_read_def i sum.case
        field_nonzero [OF n])
qed

lemma get_px_alpha_2bit:
  assumes cf: "hdr_cf (header dsc) = LV_IMG_CF_ALPHA_2BIT"
    and xy: "x < hdr_w (header dsc)" "y < hdr_h (header dsc)"
    and wh: "hdr_w (header dsc) < 2048" "hdr_h (header dsc) < 2048"
    and len: "row_stride 2 (hdr_w (header dsc)) * hdr_h (header dsc) \<le> length (data dsc)"
  shows "lv_img_buf_get_px_alpha conf dsc (int x) (int y) =
     Inr (opa_table2 ! raw_px 2 (data dsc) (hdr_w (header dsc)) x y)"
proof -
  have i: "row_stride 2 (hdr_w (header dsc)) * y + x * 2 div 8 < length (data dsc)"
    using px_index(1) [OF xy wh, of 2] len by simp
  have n: "8 - 2 - x * 2 mod 8 + 2 \<le> 8"
    by simp
  show ?thesis
    unfolding lv_img_buf_get_px_alpha_def Let_def raw_px_def
    by (simp only: cf lv_img_cf_t.distinct if_False if_True refl in_range(1) [OF xy(1)]
        in_range(1) [OF xy(2)] in_range(2) idx2 [OF xy wh] sh2 buf_read_def i sum.case
        field_value [OF n m3])
qed

lemma get_px_alpha_4bit:
  assumes cf: "hdr_cf (header dsc) = LV_IMG_CF_ALPHA_4BIT"
    and xy: "x < hdr_w (header dsc)" "y < hdr_h (header dsc)"
    and wh: "hdr_w (header dsc) < 2048" "hdr_h (header dsc) < 2048"
    and len: "row_stride 4 (hdr_w (header dsc)) * hdr_h (header dsc) \<le> length (data dsc)"
  shows "lv_img_buf_get_px_alpha conf dsc (int x) (int y) =
     Inr (opa_table4 ! raw_px 4 (data dsc) (hdr_w (header dsc)) x y)"
proof -
  have i: "row_stride 4 (hdr_w (header dsc)) * y + x * 4 div 8 < length (data dsc)"
    using px_index(1) [OF xy wh, of 4] len by simp
  have n: "8 - 4 - x * 4 mod 8 + 4 \<le> 8"
    by simp
  show ?thesis
    unfolding lv_img_buf_get_px_alpha_def Let_def raw_px_def
    by (simp only: cf lv_img_cf_t.distinct if_False if_True refl in_range(1) [OF xy(1)]
        in_range(1) [OF xy(2)] in_range(2) idx4 [OF xy wh] sh4 buf_read_def i sum.case
        field_value [OF n m15])
qed


lemma raw_px_less: "raw_px bpp buf w x y < 2 ^ bpp"
  by (simp add: raw_px_def)

lemma opa_table2_steps: "n < 4 \<Longrightarrow> opa_table2 ! n = of_nat (85 * n)"
proof -
  assume "n < 4"
  then consider "n = 0" | "n = 1" | "n = 2" | "n = 3" by linarith
  then show ?thesis by cases (simp_all add: opa_table2_def)
qed

lemma opa_table4_all: "\<forall>n \<in> set [0..<16]. opa_table4 ! n = of_nat (17 * n)"
  unfolding opa_table4_def by (simp add: upt_rec)

lemma opa_table4_steps: "n < 16 \<Longrightarrow> opa_table4 ! n = of_nat (17 * n)"
  using opa_table4_all by simp

text \<open>
  C5. For an in-range coordinate of an image whose buffer holds its rows,
  \<open>lv_img_buf_get_px_alpha\<close> returns on an Alpha-1-bit image fully transparent when
  the stored bit is 1 and fully opaque when it is 0; on an Alpha-2-bit image the entry of
  the table 0, 85, 170, 255 at the stored 2-bit value; on an Alpha-4-bit image 17 times
  the stored 4-bit value, that is the 16 steps 0, 17, 34, ..., 255.
\<close>

theorem get_px_alpha_tables:
  assumes "x < hdr_w (header dsc)" "y < hdr_h (header dsc)"
    and "hdr_w (header dsc) < 2048" "hdr_h (header dsc) < 2048"
  shows
    "(hdr_cf (header dsc) = LV_IMG_CF_ALPHA_1BIT \<longrightarrow>
      row_stride 1 (hdr_w (header dsc)) * hdr_h (header dsc) \<le> length (data dsc) \<longrightarrow>
        lv_img_buf_get_px_alpha conf dsc (int x) (int y) =
          Inr (if raw_px 1 (data dsc) (hdr_w (header dsc)) x y = 1 then LV_OPA_TRANSP
               else LV_OPA_COVER)) \<and>
     (hdr_cf (header dsc) = LV_IMG_CF_ALPHA_2BIT \<longrightarrow>
      row_stride 2 (hdr_w (header dsc)) * hdr_h (header dsc) \<le> length (data dsc) \<longrightarrow>
        lv_img_buf_get_px_alpha conf dsc (int x) (int y) =
          Inr ([0, 85, 170, 255] ! raw_px 2 (data dsc) (hdr_w (header dsc)) x y)) \<and>
     (hdr_cf (header dsc) = LV_IMG_CF_ALPHA_4BIT \<longrightarrow>
      row_stride 4 (hdr_w (header dsc)) * hdr_h (header dsc) \<le> length (data dsc) \<longrightarrow>
        lv_img_buf_get_px_alpha conf dsc (int x) (int y) =
          Inr (of_nat (17 * raw_px 4 (data dsc) (hdr_w (header dsc)) x y)) \<and>
        raw_px 4 (data dsc) (hdr_w (header dsc)) x y < 16)"
proof -
  have "raw_px 4 (data dsc) (hdr_w (header dsc)) x y < 16"
    using raw_px_less [of 4] by simp
  then show ?thesis
    using get_px_alpha_1bit [OF _ assms] get_px_alpha_2bit [OF _ assms]
      get_px_alpha_4bit [OF _ assms] opa_table4_steps
    unfolding opa_table2_def by simp
qed

theorem get_px_alpha_tables_witness:
  "lv_img_buf_get_px_alpha conf16 (img LV_IMG_CF_ALPHA_1BIT 19 2 [0, 0, 0, 0x40, 0, 0]) 1 1
     = Inr LV_OPA_TRANSP \<and>
   lv_img_buf_get_px_alpha conf16 (img LV_IMG_CF_ALPHA_1BIT 19 2 [0, 0, 0, 0x40, 0, 0]) 2 1
     = Inr LV_OPA_COVER \<and>
   lv_img_buf_get_px_alpha conf16 (img LV_IMG_CF_ALPHA_2BIT 5 1 [0x1B, 0x80]) 2 0 = Inr 170 \<and>
   lv_img_buf_get_px_alpha conf16 (img LV_IMG_CF_ALPHA_4BIT 3 1 [0x3A, 0xF0]) 1 0 = Inr 170"
  using
    get_px_alpha_tables [of 1 "img LV_IMG_CF_ALPHA_1BIT 19 2 [0, 0, 0, 0x40, 0, 0]" 1 conf16]
    get_px_alpha_tables [of 2 "img LV_IMG_CF_ALPHA_1BIT 19 2 [0, 0, 0, 0x40, 0, 0]" 1 conf16]
    get_px_alpha_tables [of 2 "img LV_IMG_CF_ALPHA_2BIT 5 1 [0x1B, 0x80]" 0 conf16]
    get_px_alpha_tables [of 1 "img LV_IMG_CF_ALPHA_4BIT 3 1 [0x3A, 0xF0]" 0 conf16]
  by (simp add: img_def raw_px_def row_stride_def)

subsection \<open>Writing a colour into an alpha-only image\<close>

text \<open>
  C10. On an Alpha-1/2/4/8-bit image \<open>lv_img_buf_set_px_color\<close> changes nothing: for
  every coordinate and colour it returns the descriptor it was given, while
  \<open>lv_img_buf_get_px_color\<close> on these formats returns the colour of the style (black
  without a style).
\<close>

theorem set_px_color_alpha_formats_noop:
  assumes "hdr_cf (header dsc) \<in>
    {LV_IMG_CF_ALPHA_1BIT, LV_IMG_CF_ALPHA_2BIT, LV_IMG_CF_ALPHA_4BIT, LV_IMG_CF_ALPHA_8BIT}"
  shows "lv_img_buf_set_px_color conf dsc x y c = Inr dsc \<and>
         lv_img_buf_get_px_color conf dsc x y (Some st) = Inr (image_color st) \<and>
         lv_img_buf_get_px_color conf dsc x y None = Inr LV_COLOR_BLACK"
proof -
  from assms consider "hdr_cf (header dsc) = LV_IMG_CF_ALPHA_1BIT"
    | "hdr_cf (header dsc) = LV_IMG_CF_ALPHA_2BIT"
    | "hdr_cf (header dsc) = LV_IMG_CF_ALPHA_4BIT"
    | "hdr_cf (header dsc) = LV_IMG_CF_ALPHA_8BIT"
    by blast
  then show ?thesis
    by cases (simp_all add: lv_img_buf_set_px_color_def lv_img_buf_get_px_color_def Let_def)
qed

theorem set_px_color_alpha_formats_noop_witness:
  "lv_img_buf_set_px_color conf16 (img LV_IMG_CF_ALPHA_8BIT 2 2 [1, 2, 3, 4]) 1 1 0xFFFF
     = Inr (img LV_IMG_CF_ALPHA_8BIT 2 2 [1, 2, 3, 4]) \<and>
   lv_img_buf_get_px_color conf16 (img LV_IMG_CF_ALPHA_8BIT 2 2 [1, 2, 3, 4]) 1 1
     (Some \<lparr>image_color = 0xF800, image_intense = 0, image_opa = 255\<rparr>) = Inr 0xF800"
  using set_px_color_alpha_formats_noop [where dsc = "img LV_IMG_CF_ALPHA_8BIT 2 2 [1, 2, 3, 4]"
      and conf = conf16 and x = 1 and y = 1 and c = "0xFFFF"
      and st = "\<lparr>image_color = 0xF800, image_intense = 0, image_opa = 255\<rparr>"]
  by (simp add: img_def)

subsection \<open>Palette entries\<close>

text \<open>
  C8. The index check of \<open>lv_img_buf_set_palette\<close> names the Alpha formats only. On
  an Indexed-1-bit image (palette of 2 entries, bytes 0 to 7) the index 2 is accepted
  and the colour is written over bytes 8 to 11, the pixel rows.
\<close>

theorem set_palette_indexed_unchecked:
  "lv_img_buf_set_palette (\<lambda>c. c)
     (img LV_IMG_CF_INDEXED_1BIT 8 4 [0, 0, 0, 0, 0, 0, 0, 0, 0x11, 0x22, 0x33, 0x44]) 2 0xFFFFFFFF
     = Inr (img LV_IMG_CF_INDEXED_1BIT 8 4 [0, 0, 0, 0, 0, 0, 0, 0, 0xFF, 0xFF, 0xFF, 0xFF])"
  by code_simp

subsection \<open>Writing and reading back an opacity\<close>

text \<open>
  C1. On an Alpha-1-bit image, writing opacity 255 stores the bit 1, and reading the
  pixel back gives 0: the reader maps a set bit to fully transparent.
\<close>

theorem alpha_1bit_roundtrip_inverted:
  "lv_img_buf_set_px_alpha conf16 (img LV_IMG_CF_ALPHA_1BIT 8 1 [0]) 0 0 255
     = Inr (img LV_IMG_CF_ALPHA_1BIT 8 1 [0x80]) \<and>
   lv_img_buf_get_px_alpha conf16 (img LV_IMG_CF_ALPHA_1BIT 8 1 [0x80]) 0 0 = Inr 0"
  by (simp add: lv_img_buf_set_px_alpha_def lv_img_buf_get_px_alpha_def img_def Let_def
      uint32_of_def buf_read_def buf_write_def LV_OPA_TRANSP_def LV_OPA_COVER_def)

subsection \<open>Coordinates outside the image\<close>

lemma clamp_fix:
  fixes w x :: int
  assumes "0 < w"
  shows "(if w \<le> max 0 (min (w - 1) x) then w - 1
          else if max 0 (min (w - 1) x) < 0 then 0 else max 0 (min (w - 1) x))
         = (if w \<le> x then w - 1 else if x < 0 then 0 else x)"
  using assms by (simp add: max_def min_def)

lemma get_px_color_clamps:
  assumes "0 < hdr_w (header dsc)" "0 < hdr_h (header dsc)"
  shows "lv_img_buf_get_px_color conf dsc x y st =
         lv_img_buf_get_px_color conf dsc
           (max 0 (min (int (hdr_w (header dsc)) - 1) x))
           (max 0 (min (int (hdr_h (header dsc)) - 1) y)) st"
proof -
  have w: "0 < int (hdr_w (header dsc))" and h: "0 < int (hdr_h (header dsc))"
    using assms by simp_all
  show ?thesis
    unfolding lv_img_buf_get_px_color_def Let_def
    by (simp only: clamp_fix [OF w] clamp_fix [OF h])
qed

lemma get_px_alpha_clamps:
  assumes "0 < hdr_w (header dsc)" "0 < hdr_h (header dsc)"
  shows "lv_img_buf_get_px_alpha conf dsc x y =
         lv_img_buf_get_px_alpha conf dsc
           (max 0 (min (int (hdr_w (header dsc)) - 1) x))
           (max 0 (min (int (hdr_h (header dsc)) - 1) y))"
proof -
  have w: "0 < int (hdr_w (header dsc))" and h: "0 < int (hdr_h (header dsc))"
    using assms by simp_all
  show ?thesis
    unfolding lv_img_buf_get_px_alpha_def Let_def
    by (simp only: clamp_fix [OF w] clamp_fix [OF h])
qed


lemma uint32_of_nat: "n < 2 ^ 32 \<Longrightarrow> uint32_of (int n) = n"
proof -
  assume "n < 2 ^ 32"
  then have "int n < 2 ^ 32"
    by (metis of_nat_less_iff of_nat_numeral of_nat_power)
  then show ?thesis
    unfolding uint32_of_def by simp
qed

lemma pixel_offset:
  assumes "x < w" "y < h" "w < 2048" "h < 2048" "ps < 32"
  shows "uint32_of (int w * int y * int ps + int x * int ps) = (w * y + x) * ps"
    and "(w * y + x) * ps + ps \<le> w * h * ps"
proof -
  have "Suc y \<le> h" using assms by simp
  then have "w * Suc y \<le> w * h" by (rule mult_le_mono2)
  then have a: "w * y + x + 1 \<le> w * h" using assms by simp
  have "(w * y + x + 1) * ps \<le> w * h * ps"
    using a by (rule mult_le_mono1)
  then show b: "(w * y + x) * ps + ps \<le> w * h * ps"
    by (simp add: algebra_simps)
  have "w * h \<le> 2048 * 2048" using assms by (intro mult_le_mono) auto
  then have "w * h * ps \<le> 2048 * 2048 * 32" using assms by (intro mult_le_mono) auto
  with b have c: "(w * y + x) * ps < 2 ^ 32" by simp
  have e: "int w * int y * int ps + int x * int ps = int ((w * y + x) * ps)"
    by (simp add: algebra_simps)
  show "uint32_of (int w * int y * int ps + int x * int ps) = (w * y + x) * ps"
    unfolding e using c by (rule uint32_of_nat)
qed

lemma idx8:
  assumes "x < w" "y < h" "w < 2048" "h < 2048"
  shows "uint32_of (int w * int y + int x) = w * y + x" and "w * y + x < w * h"
proof -
  have "Suc y \<le> h" using assms by simp
  then have "w * Suc y \<le> w * h" by (rule mult_le_mono2)
  then show a: "w * y + x < w * h" using assms by simp
  have "w * h \<le> 2048 * 2048" using assms by (intro mult_le_mono) auto
  with a have c: "w * y + x < 2 ^ 32" by simp
  have e: "int w * int y + int x = int (w * y + x)" by simp
  show "uint32_of (int w * int y + int x) = w * y + x"
    unfolding e using c by (rule uint32_of_nat)
qed

lemma alpha_px_size:
  "A < 32 \<Longrightarrow> drop_bit 3 (push_bit 3 A mod 256) = (A::nat)"
  by (simp add: push_bit_eq_mult drop_bit_eq_div)

lemma get_px_color_defined_in_range:
  assumes xy: "x < hdr_w (header dsc)" "y < hdr_h (header dsc)"
    and wh: "hdr_w (header dsc) < 2048" "hdr_h (header dsc) < 2048"
    and conf: "sizeof_lv_color_t conf \<le> LV_IMG_PX_SIZE_ALPHA_BYTE conf"
      "LV_IMG_PX_SIZE_ALPHA_BYTE conf < 32"
    and len: "img_buf_size conf (hdr_cf (header dsc)) (hdr_w (header dsc)) (hdr_h (header dsc))
                \<le> length (data dsc)"
  shows "\<exists>c. lv_img_buf_get_px_color conf dsc (int x) (int y) st = Inr c"
proof -
  have ps: "drop_bit 3 (LV_COLOR_SIZE conf) = sizeof_lv_color_t conf"
    by (simp add: sizeof_lv_color_t_def drop_bit_eq_div)
  have lt: "sizeof_lv_color_t conf < 32"
    by (simp add: sizeof_lv_color_t_def split: color_depth.split)
  note o = pixel_offset [OF xy wh lt]
  note oa = pixel_offset [OF xy wh conf(2)]
  note r = in_range(1) [OF xy(1)] in_range(1) [OF xy(2)] in_range(2)
  show ?thesis
  proof (cases "hdr_cf (header dsc)")
    case LV_IMG_CF_TRUE_COLOR
    have "(hdr_w (header dsc) * y + x) * sizeof_lv_color_t conf + sizeof_lv_color_t conf
        \<le> length (data dsc)"
      using o(2) len by (simp add: img_buf_size_def LV_IMG_CF_TRUE_COLOR)
    then show ?thesis
      unfolding lv_img_buf_get_px_color_def Let_def
      by (simp only: LV_IMG_CF_TRUE_COLOR lv_img_cf_t.distinct if_False if_True refl simp_thms
          r lv_img_color_format_get_px_size.simps ps o(1) buf_read_n_def sum.case) blast
  next
    case LV_IMG_CF_TRUE_COLOR_CHROMA_KEYED
    have "(hdr_w (header dsc) * y + x) * sizeof_lv_color_t conf + sizeof_lv_color_t conf
        \<le> length (data dsc)"
      using o(2) len by (simp add: img_buf_size_def LV_IMG_CF_TRUE_COLOR_CHROMA_KEYED)
    then show ?thesis
      unfolding lv_img_buf_get_px_color_def Let_def
      by (simp only: LV_IMG_CF_TRUE_COLOR_CHROMA_KEYED lv_img_cf_t.distinct if_False if_True
          refl simp_thms r lv_img_color_format_get_px_size.simps ps o(1) buf_read_n_def
          sum.case) blast
  next
    case LV_IMG_CF_TRUE_COLOR_ALPHA
    have "(hdr_w (header dsc) * y + x) * LV_IMG_PX_SIZE_ALPHA_BYTE conf + sizeof_lv_color_t conf
        \<le> length (data dsc)"
      using oa(2) len conf(1) by (simp add: img_buf_size_def LV_IMG_CF_TRUE_COLOR_ALPHA)
    then show ?thesis
      unfolding lv_img_buf_get_px_color_def Let_def
      by (simp only: LV_IMG_CF_TRUE_COLOR_ALPHA lv_img_cf_t.distinct if_False if_True
          refl simp_thms r lv_img_color_format_get_px_size.simps alpha_px_size [OF conf(2)]
          oa(1) buf_read_n_def sum.case) blast
  next
    case LV_IMG_CF_INDEXED_1BIT
    have "4 * 2 + (row_stride 1 (hdr_w (header dsc)) * y + x * 1 div 8) < length (data dsc)"
      using px_index(1) [OF xy wh, of 1] len by (simp add: img_buf_size_def LV_IMG_CF_INDEXED_1BIT)
    then show ?thesis
      unfolding lv_img_buf_get_px_color_def Let_def
      by (simp only: LV_IMG_CF_INDEXED_1BIT lv_img_cf_t.distinct if_False if_True
          refl simp_thms r idx1 [OF xy wh] buf_read_def sum.case) blast
  next
    case LV_IMG_CF_INDEXED_2BIT
    have "4 * 4 + (row_stride 2 (hdr_w (header dsc)) * y + x * 2 div 8) < length (data dsc)"
      using px_index(1) [OF xy wh, of 2] len by (simp add: img_buf_size_def LV_IMG_CF_INDEXED_2BIT)
    then show ?thesis
      unfolding lv_img_buf_get_px_color_def Let_def
      by (simp only: LV_IMG_CF_INDEXED_2BIT lv_img_cf_t.distinct if_False if_True
          refl simp_thms r idx2 [OF xy wh] buf_read_def sum.case) blast
  next
    case LV_IMG_CF_INDEXED_4BIT
    have "4 * 16 + (row_stride 4 (hdr_w (header dsc)) * y + x * 4 div 8) < length (data dsc)"
      using px_index(1) [OF xy wh, of 4] len by (simp add: img_buf_size_def LV_IMG_CF_INDEXED_4BIT)
    then show ?thesis
      unfolding lv_img_buf_get_px_color_def Let_def
      by (simp only: LV_IMG_CF_INDEXED_4BIT lv_img_cf_t.distinct if_False if_True
          refl simp_thms r idx4 [OF xy wh] buf_read_def sum.case) blast
  next
    case LV_IMG_CF_INDEXED_8BIT
    have "4 * 256 + (hdr_w (header dsc) * y + x) < length (data dsc)"
      using idx8(2) [OF xy wh] len
      by (simp add: img_buf_size_def LV_IMG_CF_INDEXED_8BIT row_stride_def)
    then show ?thesis
      unfolding lv_img_buf_get_px_color_def Let_def
      by (simp only: LV_IMG_CF_INDEXED_8BIT lv_img_cf_t.distinct if_False if_True
          refl simp_thms r idx8(1) [OF xy wh] buf_read_def sum.case) blast
  qed (simp_all add: lv_img_buf_get_px_color_def Let_def split: option.split)
qed


lemma last_byte_offset:
  assumes "x < w" "y < h" "w < 2048" "h < 2048" "A < 32" "0 < A"
  shows "uint32_of (int ((w * y + x) * A) + int A - 1) = (w * y + x) * A + A - 1"
    and "(w * y + x) * A + A - 1 < w * h * A"
proof -
  note o = pixel_offset [OF assms(1-5)]
  show a: "(w * y + x) * A + A - 1 < w * h * A"
    using o(2) assms(6) by simp
  have "w * h \<le> 2048 * 2048" using assms by (intro mult_le_mono) auto
  then have "w * h * A \<le> 2048 * 2048 * 32" using assms by (intro mult_le_mono) auto
  with a have c: "(w * y + x) * A + A - 1 < 2 ^ 32" by simp
  have e: "int ((w * y + x) * A) + int A - 1 = int ((w * y + x) * A + A - 1)"
    using assms(6) by (simp add: of_nat_diff)
  show "uint32_of (int ((w * y + x) * A) + int A - 1) = (w * y + x) * A + A - 1"
    unfolding e using c by (rule uint32_of_nat)
qed

lemma get_px_alpha_defined_in_range:
  assumes xy: "x < hdr_w (header dsc)" "y < hdr_h (header dsc)"
    and wh: "hdr_w (header dsc) < 2048" "hdr_h (header dsc) < 2048"
    and conf: "0 < LV_IMG_PX_SIZE_ALPHA_BYTE conf" "LV_IMG_PX_SIZE_ALPHA_BYTE conf < 32"
    and len: "img_buf_size conf (hdr_cf (header dsc)) (hdr_w (header dsc)) (hdr_h (header dsc))
                \<le> length (data dsc)"
  shows "\<exists>a. lv_img_buf_get_px_alpha conf dsc (int x) (int y) = Inr a"
proof -
  note oa = pixel_offset [OF xy wh conf(2)]
  note ob = last_byte_offset [OF xy wh conf(2) conf(1)]
  note r = in_range(1) [OF xy(1)] in_range(1) [OF xy(2)] in_range(2)
  show ?thesis
  proof (cases "hdr_cf (header dsc)")
    case LV_IMG_CF_TRUE_COLOR_ALPHA
    have "(hdr_w (header dsc) * y + x) * LV_IMG_PX_SIZE_ALPHA_BYTE conf
        + LV_IMG_PX_SIZE_ALPHA_BYTE conf - 1 < length (data dsc)"
      using ob(2) len by (simp add: img_buf_size_def LV_IMG_CF_TRUE_COLOR_ALPHA)
    then show ?thesis
      unfolding lv_img_buf_get_px_alpha_def Let_def
      by (simp only: LV_IMG_CF_TRUE_COLOR_ALPHA lv_img_cf_t.distinct if_False if_True
          refl simp_thms r oa(1) ob(1) buf_read_def sum.case) blast
  next
    case LV_IMG_CF_ALPHA_1BIT
    have "row_stride 1 (hdr_w (header dsc)) * hdr_h (header dsc) \<le> length (data dsc)"
      using len by (simp add: img_buf_size_def LV_IMG_CF_ALPHA_1BIT)
    then show ?thesis
      using get_px_alpha_1bit [OF LV_IMG_CF_ALPHA_1BIT xy wh] by blast
  next
    case LV_IMG_CF_ALPHA_2BIT
    have "row_stride 2 (hdr_w (header dsc)) * hdr_h (header dsc) \<le> length (data dsc)"
      using len by (simp add: img_buf_size_def LV_IMG_CF_ALPHA_2BIT)
    then show ?thesis
      using get_px_alpha_2bit [OF LV_IMG_CF_ALPHA_2BIT xy wh] by blast
  next
    case LV_IMG_CF_ALPHA_4BIT
    have "row_stride 4 (hdr_w (header dsc)) * hdr_h (header dsc) \<le> length (data dsc)"
      using len by (simp add: img_buf_size_def LV_IMG_CF_ALPHA_4BIT)
    then show ?thesis
      using get_px_alpha_4bit [OF LV_IMG_CF_ALPHA_4BIT xy wh] by blast
  next
    case LV_IMG_CF_ALPHA_8BIT
    have "hdr_w (header dsc) * y + x < length (data dsc)"
      using idx8(2) [OF xy wh] len
      by (simp add: img_buf_size_def LV_IMG_CF_ALPHA_8BIT row_stride_def)
    then show ?thesis
      unfolding lv_img_buf_get_px_alpha_def Let_def
      by (simp only: LV_IMG_CF_ALPHA_8BIT lv_img_cf_t.distinct if_False if_True
          refl simp_thms r idx8(1) [OF xy wh] buf_read_def sum.case) blast
  qed (simp_all add: lv_img_buf_get_px_alpha_def Let_def)
qed

lemma clamped_in_range:
  fixes w x :: int
  assumes "0 < w"
  shows "0 \<le> max 0 (min (w - 1) x)" "max 0 (min (w - 1) x) < w"
  using assms by simp_all

lemma bytes_of_color_unfold:
  "bytes_of_color 1 c = [ucast c]"
  "bytes_of_color 2 c = [ucast c, ucast (drop_bit 8 c)]"
  "bytes_of_color 3 c = [ucast c, ucast (drop_bit 8 c), ucast (drop_bit 16 c)]"
  "bytes_of_color 4 c = [ucast c, ucast (drop_bit 8 c), ucast (drop_bit 16 c),
     ucast (drop_bit 24 c)]"
  by (simp_all add: bytes_of_color_def eval_nat_numeral del: drop_bit_Suc)

text \<open>
  C4, as stated, fails for the two writers: \<open>lv_img_buf_set_px_alpha\<close> and
  \<open>lv_img_buf_set_px_color\<close> address the byte computed from the coordinates as
  given. On a 2 by 2 image, \<open>x = 2, y = 0\<close> writes pixel \<open>(0, 1)\<close>, not the clamped
  pixel \<open>(1, 0)\<close>, and \<open>y = 2\<close> or \<open>y = - 1\<close> addresses a byte outside the buffer.
\<close>

theorem writers_do_not_clamp:
  "lv_img_buf_set_px_alpha conf16 (img LV_IMG_CF_ALPHA_8BIT 2 2 [0, 0, 0, 0]) 2 0 255
     = Inr (img LV_IMG_CF_ALPHA_8BIT 2 2 [0, 0, 255, 0]) \<and>
   lv_img_buf_set_px_alpha conf16 (img LV_IMG_CF_ALPHA_8BIT 2 2 [0, 0, 0, 0]) 0 2 255
     = Inl OutOfBounds \<and>
   lv_img_buf_set_px_color conf16 (img LV_IMG_CF_TRUE_COLOR 2 2 [0, 0, 0, 0, 0, 0, 0, 0]) 2 0 0xFFFF
     = Inr (img LV_IMG_CF_TRUE_COLOR 2 2 [0, 0, 0, 0, 0xFF, 0xFF, 0, 0]) \<and>
   lv_img_buf_set_px_color conf16 (img LV_IMG_CF_TRUE_COLOR 2 2 [0, 0, 0, 0, 0, 0, 0, 0]) 0 (- 1) 0xFFFF
     = Inl OutOfBounds"
  by (simp add: lv_img_buf_set_px_alpha_def lv_img_buf_set_px_color_def img_def conf16_def
      Let_def uint32_of_def buf_write_def buf_write_n_def bytes_of_color_unfold drop_bit_eq_div)


text \<open>
  C4, amended. The two readers clamp: on an image with at least one row and one column,
  \<open>lv_img_buf_get_px_color\<close> and \<open>lv_img_buf_get_px_alpha\<close> return what they return
  at the coordinate clamped into \<open>[0, w) \<times> [0, h)\<close>; in particular \<open>(-1, -1)\<close> reads
  as \<open>(0, 0)\<close> and \<open>(w, h)\<close> as \<open>(w - 1, h - 1)\<close>; and when the buffer holds the
  palette and the rows of the image, no coordinate makes them read outside it.
\<close>

theorem readers_clamp_coordinates:
  assumes wh: "0 < hdr_w (header dsc)" "0 < hdr_h (header dsc)"
      "hdr_w (header dsc) < 2048" "hdr_h (header dsc) < 2048"
  shows
    "lv_img_buf_get_px_color conf dsc x y st =
       lv_img_buf_get_px_color conf dsc (max 0 (min (int (hdr_w (header dsc)) - 1) x))
         (max 0 (min (int (hdr_h (header dsc)) - 1) y)) st \<and>
     lv_img_buf_get_px_alpha conf dsc x y =
       lv_img_buf_get_px_alpha conf dsc (max 0 (min (int (hdr_w (header dsc)) - 1) x))
         (max 0 (min (int (hdr_h (header dsc)) - 1) y)) \<and>
     lv_img_buf_get_px_color conf dsc (- 1) (- 1) st = lv_img_buf_get_px_color conf dsc 0 0 st \<and>
     lv_img_buf_get_px_color conf dsc (int (hdr_w (header dsc))) (int (hdr_h (header dsc))) st =
       lv_img_buf_get_px_color conf dsc (int (hdr_w (header dsc)) - 1)
         (int (hdr_h (header dsc)) - 1) st \<and>
     (sizeof_lv_color_t conf \<le> LV_IMG_PX_SIZE_ALPHA_BYTE conf \<longrightarrow>
      LV_IMG_PX_SIZE_ALPHA_BYTE conf < 32 \<longrightarrow>
      img_buf_size conf (hdr_cf (header dsc)) (hdr_w (header dsc)) (hdr_h (header dsc))
        \<le> length (data dsc) \<longrightarrow>
      (\<exists>c. lv_img_buf_get_px_color conf dsc x y st = Inr c) \<and>
      (\<exists>a. lv_img_buf_get_px_alpha conf dsc x y = Inr a))"
proof -
  let ?w = "int (hdr_w (header dsc))" and ?h = "int (hdr_h (header dsc))"
  define cx where "cx = nat (max 0 (min (?w - 1) x))"
  define cy where "cy = nat (max 0 (min (?h - 1) y))"
  have cx: "max 0 (min (?w - 1) x) = int cx" and cy: "max 0 (min (?h - 1) y) = int cy"
    unfolding cx_def cy_def by simp_all
  have in_w: "cx < hdr_w (header dsc)" and in_h: "cy < hdr_h (header dsc)"
    unfolding cx_def cy_def using wh(1,2) by simp_all
  note col = get_px_color_clamps [OF wh(1,2), of conf _ _ st]
  note alp = get_px_alpha_clamps [OF wh(1,2), of conf]
  have low: "max 0 (min (?w - 1) (- 1)) = 0" "max 0 (min (?h - 1) (- 1)) = 0"
    using wh(1,2) by simp_all
  have high: "max 0 (min (?w - 1) ?w) = ?w - 1" "max 0 (min (?h - 1) ?h) = ?h - 1"
    using wh(1,2) by simp_all
  have corner_low:
    "lv_img_buf_get_px_color conf dsc (- 1) (- 1) st = lv_img_buf_get_px_color conf dsc 0 0 st"
    using col [of "- 1" "- 1"] by (simp only: low)
  have corner_high:
    "lv_img_buf_get_px_color conf dsc ?w ?h st =
     lv_img_buf_get_px_color conf dsc (?w - 1) (?h - 1) st"
    using col [of ?w ?h] by (simp only: high)
  have defined: "(\<exists>c. lv_img_buf_get_px_color conf dsc x y st = Inr c) \<and>
      (\<exists>a. lv_img_buf_get_px_alpha conf dsc x y = Inr a)"
    if conf: "sizeof_lv_color_t conf \<le> LV_IMG_PX_SIZE_ALPHA_BYTE conf"
      "LV_IMG_PX_SIZE_ALPHA_BYTE conf < 32"
      and len: "img_buf_size conf (hdr_cf (header dsc)) (hdr_w (header dsc))
        (hdr_h (header dsc)) \<le> length (data dsc)"
  proof -
    have "0 < sizeof_lv_color_t conf"
      by (simp add: sizeof_lv_color_t_def split: color_depth.split)
    with conf(1) have pos: "0 < LV_IMG_PX_SIZE_ALPHA_BYTE conf"
      by simp
    have e1: "lv_img_buf_get_px_color conf dsc x y st =
        lv_img_buf_get_px_color conf dsc (int cx) (int cy) st"
      using col [of x y] unfolding cx cy .
    have e2: "lv_img_buf_get_px_alpha conf dsc x y =
        lv_img_buf_get_px_alpha conf dsc (int cx) (int cy)"
      using alp [of x y] unfolding cx cy .
    have "\<exists>c. lv_img_buf_get_px_color conf dsc (int cx) (int cy) st = Inr c"
      using in_w in_h wh(3,4) conf len by (rule get_px_color_defined_in_range)
    moreover have "\<exists>a. lv_img_buf_get_px_alpha conf dsc (int cx) (int cy) = Inr a"
      using in_w in_h wh(3,4) pos conf(2) len by (rule get_px_alpha_defined_in_range)
    ultimately show ?thesis
      unfolding e1 e2 by (rule conjI)
  qed
  then have d: "sizeof_lv_color_t conf \<le> LV_IMG_PX_SIZE_ALPHA_BYTE conf \<longrightarrow>
      LV_IMG_PX_SIZE_ALPHA_BYTE conf < 32 \<longrightarrow>
      img_buf_size conf (hdr_cf (header dsc)) (hdr_w (header dsc)) (hdr_h (header dsc))
        \<le> length (data dsc) \<longrightarrow>
      (\<exists>c. lv_img_buf_get_px_color conf dsc x y st = Inr c) \<and>
      (\<exists>a. lv_img_buf_get_px_alpha conf dsc x y = Inr a)"
    by (intro impI)
  show ?thesis
    by (rule conjI [OF col conjI [OF alp conjI [OF corner_low conjI [OF corner_high d]]]])
qed

theorem readers_clamp_coordinates_witness:
  "lv_img_buf_get_px_color conf16
     (img LV_IMG_CF_TRUE_COLOR 2 2 [0x11, 0x22, 0x33, 0x44, 0x55, 0x66, 0x77, 0x88]) 7 (- 3) None
     = Inr 0x4433 \<and>
   lv_img_buf_get_px_alpha conf16 (img LV_IMG_CF_ALPHA_8BIT 2 2 [1, 2, 3, 4]) (- 5) 2 = Inr 3"
proof -
  have "lv_img_buf_get_px_color conf16
     (img LV_IMG_CF_TRUE_COLOR 2 2 [0x11, 0x22, 0x33, 0x44, 0x55, 0x66, 0x77, 0x88]) 1 0 None
     = Inr 0x4433"
    by (simp add: lv_img_buf_get_px_color_def img_def conf16_def Let_def uint32_of_def
        buf_read_n_def sizeof_lv_color_t_def)
  moreover have
    "lv_img_buf_get_px_alpha conf16 (img LV_IMG_CF_ALPHA_8BIT 2 2 [1, 2, 3, 4]) 0 1 = Inr 3"
    by (simp add: lv_img_buf_get_px_alpha_def img_def Let_def uint32_of_def buf_read_def)
  ultimately show ?thesis
    using
      readers_clamp_coordinates [where conf = conf16 and x = 7 and y = "- 3" and st = None
        and dsc = "img LV_IMG_CF_TRUE_COLOR 2 2 [0x11, 0x22, 0x33, 0x44, 0x55, 0x66, 0x77, 0x88]"]
      readers_clamp_coordinates [where conf = conf16 and x = "- 5" and y = 2 and st = None
        and dsc = "img LV_IMG_CF_ALPHA_8BIT 2 2 [1, 2, 3, 4]"]
    by (simp add: img_def)
qed

section \<open>The entry point: properties\<close>

lemma log_events_append [simp]:
  "log_events evs (log_events evs' w) = log_events (evs' @ evs) w"
  by (simp add: log_events_def)

lemma log_events_simps [simp]:
  "w_events (log_events evs w) = w_events w @ evs"
  "w_dest (log_events evs w) = w_dest w"
  "log_events evs (w\<lparr>w_dest := d\<rparr>) = (log_events evs w)\<lparr>w_dest := d\<rparr>"
  by (simp_all add: log_events_def)

lemma draw_core_lines_abort:
  assumes "k < n"
    and "\<forall>j<k. dec_read_line cdsc x (y + int j) width = Some (bufs j)"
    and "dec_read_line cdsc x (y + int k) width = None"
    and "compose_lines conf env mask_area opa ck ab style bufs k line (w_dest w) = Inr d"
  shows "draw_core_lines conf env cdsc mask_area opa ck ab style width x n line y w =
     Inr (LV_RES_INV,
          log_events (line_events x y width line ck ab k @
                      [EvReadLine x (y + int k) width False, EvDecoderClose])
            (w\<lparr>w_dest := d\<rparr>))"
  using assms
proof (induction k arbitrary: n y line w bufs)
  case 0
  then obtain m where "n = Suc m" by (cases n) auto
  with 0 show ?case by (simp add: log_events_def)
next
  case (Suc k)
  then obtain m where n: "n = Suc m" and km: "k < m" by (cases n) auto
  have r0: "dec_read_line cdsc x y width = Some (bufs 0)"
    using Suc.prems(2) [rule_format, of 0] by simp
  obtain d0 where d0: "lv_draw_map conf env line mask_area (bufs 0) opa ck ab
      (image_color style) (image_intense style) (w_dest w) = Inr d0"
    and rest: "compose_lines conf env mask_area opa ck ab style (\<lambda>j. bufs (Suc j)) k
      (line\<lparr>area_y1 := area_y1 line + 1, area_y2 := area_y2 line + 1\<rparr>) d0 = Inr d"
    using Suc.prems(4) by (auto split: sum.splits)
  have reads: "\<forall>j<k. dec_read_line cdsc x (y + 1 + int j) width = Some (bufs (Suc j))"
  proof (intro allI impI)
    fix j assume "j < k"
    then have "dec_read_line cdsc x (y + int (Suc j)) width = Some (bufs (Suc j))"
      using Suc.prems(2) [rule_format, of "Suc j"] by simp
    then show "dec_read_line cdsc x (y + 1 + int j) width = Some (bufs (Suc j))"
      by (simp add: algebra_simps)
  qed
  have fails: "dec_read_line cdsc x (y + 1 + int k) width = None"
    using Suc.prems(3) by (simp add: algebra_simps)
  note ih = Suc.IH [OF km reads fails, where w = "log_events [EvReadLine x y width True,
      EvDrawMap line ck ab] (w\<lparr>w_dest := d0\<rparr>)" and line = "line\<lparr>area_y1 := area_y1 line + 1,
      area_y2 := area_y2 line + 1\<rparr>"]
  show ?case
    using ih rest by (simp add: n r0 d0 algebra_simps)
qed


lemma line_events_members:
  "e \<in> set (line_events x y width line ck ab k) \<Longrightarrow>
   (\<exists>y'. e = EvReadLine x y' width True) \<or> (\<exists>a. e = EvDrawMap a ck ab)"
  by (induction k arbitrary: y line) auto

lemma draw_core_lines_events:
  "draw_core_lines conf env cdsc mask_area opa ck ab style width x n line y w = Inr (res, w') \<Longrightarrow>
   \<exists>k. w_events w' = w_events w @ line_events x y width line ck ab k @
         (if res = LV_RES_INV then [EvReadLine x (y + int k) width False, EvDecoderClose]
          else [])"
proof (induction n arbitrary: line y w)
  case 0
  then have "w' = w" "res = LV_RES_OK" by simp_all
  then show ?case by (intro exI [of _ 0]) simp
next
  case (Suc n)
  show ?case
  proof (cases "dec_read_line cdsc x y width")
    case None
    with Suc.prems have "res = LV_RES_INV"
      "w' = log_events [EvReadLine x y width False, EvDecoderClose] w"
      by simp_all
    then show ?thesis by (intro exI [of _ 0]) simp
  next
    case (Some buf)
    with Suc.prems obtain d where
      d: "lv_draw_map conf env line mask_area buf opa ck ab (image_color style)
            (image_intense style) (w_dest w) = Inr d"
      and rest: "draw_core_lines conf env cdsc mask_area opa ck ab style width x n
          (line\<lparr>area_y1 := area_y1 line + 1, area_y2 := area_y2 line + 1\<rparr>) (y + 1)
          (log_events [EvReadLine x y width True, EvDrawMap line ck ab] (w\<lparr>w_dest := d\<rparr>))
          = Inr (res, w')"
      by (auto split: sum.splits)
    from Suc.IH [OF rest] obtain k where
      "w_events w' = w_events w @ [EvReadLine x y width True, EvDrawMap line ck ab] @
         line_events x (y + 1) width
           (line\<lparr>area_y1 := area_y1 line + 1, area_y2 := area_y2 line + 1\<rparr>) ck ab k @
         (if res = LV_RES_INV then [EvReadLine x (y + 1 + int k) width False, EvDecoderClose]
          else [])"
      by auto
    then show ?thesis
      by (intro exI [of _ "Suc k"]) (simp add: algebra_simps)
  qed
qed

lemma draw_core_events:
  assumes "lv_img_draw_core conf env cenv coords mask_area src style opa_scale w = Inr (res, w')"
  shows "\<exists>evs. w_events w' = w_events w @ evs \<and>
     (evs = [] \<and> res = LV_RES_OK \<or>
      evs = [EvCacheOpen False] \<and> res = LV_RES_INV \<or>
      (\<exists>cdsc tail. cache_open cenv src style = Some cdsc \<and> evs = EvCacheOpen True # tail \<and>
         ((\<exists>msg. tail = [EvDrawRect, EvDrawLabel msg]) \<and> res = LV_RES_OK \<or>
          tail = [EvDrawMap coords (lv_img_color_format_is_chroma_keyed (dec_cf cdsc))
                    (lv_img_color_format_has_alpha (dec_cf cdsc))] \<and> res = LV_RES_OK \<or>
          (\<exists>x y width line k. tail =
               line_events x y width line (lv_img_color_format_is_chroma_keyed (dec_cf cdsc))
                 (lv_img_color_format_has_alpha (dec_cf cdsc)) k @
               (if res = LV_RES_INV then [EvReadLine x (y + int k) width False, EvDecoderClose]
                else [])))))"
proof (cases "lv_area_intersect mask_area coords")
  case None
  with assms have "w' = w" "res = LV_RES_OK"
    by (simp_all add: lv_img_draw_core_def)
  then show ?thesis by simp
next
  case inter: (Some mask_com)
  show ?thesis
  proof (cases "cache_open cenv src style")
    case None
    with assms inter have "w' = log_events [EvCacheOpen False] w" "res = LV_RES_INV"
      by (simp_all add: lv_img_draw_core_def Let_def)
    then show ?thesis by simp
  next
    case opened: (Some cdsc)
    let ?ck = "lv_img_color_format_is_chroma_keyed (dec_cf cdsc)"
    let ?ab = "lv_img_color_format_has_alpha (dec_cf cdsc)"
    show ?thesis
    proof (cases "dec_error_msg cdsc")
      case (Some msg)
      with assms inter opened have
        "w' = fallback cenv coords mask_area msg (log_events [EvCacheOpen True] w)"
        "res = LV_RES_OK"
        by (simp_all add: lv_img_draw_core_def Let_def)
      then show ?thesis using opened by (simp add: fallback_def)
    next
      case no_msg: None
      show ?thesis
      proof (cases "dec_img_data cdsc")
        case (Some img_data)
        with assms inter opened no_msg obtain d where
          "w' = log_events [EvDrawMap coords ?ck ?ab]
             ((log_events [EvCacheOpen True] w)\<lparr>w_dest := d\<rparr>)" "res = LV_RES_OK"
          by (auto simp: lv_img_draw_core_def Let_def split: sum.splits)
        then show ?thesis using opened by simp
      next
        case None
        with assms inter opened no_msg obtain opa where
          "draw_core_lines conf env cdsc mask_area opa ?ck ?ab style (lv_area_get_width mask_com)
             (area_x1 mask_com - area_x1 coords)
             (nat (area_y2 mask_com - area_y1 mask_com + 1)) (lv_area_set_height mask_com 1)
             (area_y1 mask_com - area_y1 coords) (log_events [EvCacheOpen True] w) = Inr (res, w')"
          by (simp add: lv_img_draw_core_def Let_def)
        from draw_core_lines_events [OF this] obtain k where
          "w_events w' = w_events w @ EvCacheOpen True #
             line_events (area_x1 mask_com - area_x1 coords) (area_y1 mask_com - area_y1 coords)
               (lv_area_get_width mask_com) (lv_area_set_height mask_com 1) ?ck ?ab k @
             (if res = LV_RES_INV
              then [EvReadLine (area_x1 mask_com - area_x1 coords)
                      (area_y1 mask_com - area_y1 coords + int k) (lv_area_get_width mask_com)
                      False, EvDecoderClose]
              else [])"
          by auto
        then show ?thesis using opened by blast
      qed
    qed
  qed
qed


lemma sizeof16: "sizeof_lv_color_t conf16 = 2"
  by (simp add: sizeof_lv_color_t_def conf16_def)

lemma upt_0_2: "[0..<2] = [0, Suc 0]"
  by (simp add: numeral_2_eq_2)

lemma colors_of_4_bytes:
  "colors_of_bytes conf16 [b0, b1, b2, b3] =
     [ucast b0 OR push_bit 8 (ucast b1), ucast b2 OR push_bit 8 (ucast b3)]"
  unfolding colors_of_bytes_def sizeof16
  by (simp add: upt_0_2)


lemma fast_line:
  assumes "0 \<le> y" "y \<le> 9"
  shows "lv_draw_map conf16 trace_env (area 0 y 1 y) (area 0 0 1 9) [1, 2, 3, 4] 255 False False
      0 0 calls
     = Inr (calls @ [\<lparr>bl_clip_area = area 0 0 1 9, bl_map_area = area 0 y 1 y,
                      bl_map_buf = [0x0201, 0x0403], bl_mask = None,
                      bl_mask_res = LV_MASK_RES_FULL_COVER, bl_opa = 255,
                      bl_mode = LV_BLEND_MODE_NORMAL\<rparr>])"
proof -
  have i: "lv_area_intersect (area 0 y 1 y) (area 0 0 1 9) = Some (area 0 y 1 y)"
    using assms by (simp add: lv_area_intersect_def area_def Let_def)
  have m: "\<not> (255 :: lv_opa_t) < LV_OPA_MIN conf16" "(255 :: lv_opa_t) > LV_OPA_MAX conf16"
    by (simp_all add: conf16_def)
  have e: "mask_cnt trace_env = 0" "blend_map trace_env = (\<lambda>bc calls. calls @ [bc])"
    by (simp_all add: trace_env_def)
  have c: "colors_of_bytes conf16 [1, 2, 3, 4] = [0x0201, 0x0403]"
    by (simp add: colors_of_4_bytes)
  show ?thesis
    unfolding lv_draw_map_def lv_draw_map_fast_def
    by (simp add: i m e c Let_def LV_OPA_COVER_def LV_OPA_TRANSP_def)
qed


text \<open>
  C3. In the row-streaming path, when the reads of the rows before row \<open>k\<close> of the
  intersection succeed and the read of row \<open>k\<close> fails, \<open>lv_img_draw_core\<close> returns
  \<open>LV_RES_INV\<close>; its events are the opening of the entry, the reads and compositions of
  rows \<open>0\<close> to \<open>k - 1\<close> in order, the failed read of row \<open>k\<close> and the closing of the
  decoder, and nothing after; the destination is the one left by compositing rows \<open>0\<close> to
  \<open>k - 1\<close>.
\<close>

theorem scan_line_failure_aborts:
  assumes inter: "lv_area_intersect mask_area coords = Some mask_com"
    and opened: "cache_open cenv src style = Some cdsc"
    and stream: "dec_error_msg cdsc = None" "dec_img_data cdsc = None"
    and k: "k < nat (area_y2 mask_com - area_y1 mask_com + 1)"
    and x: "x = area_x1 mask_com - area_x1 coords"
    and y: "y = area_y1 mask_com - area_y1 coords"
    and width: "width = lv_area_get_width mask_com"
    and reads: "\<forall>j<k. dec_read_line cdsc x (y + int j) width = Some (bufs j)"
    and fails: "dec_read_line cdsc x (y + int k) width = None"
    and opa: "opa = (if opa_scale = LV_OPA_COVER then image_opa style
                     else ucast (drop_bit 8 ((ucast (image_opa style) :: 16 word) * ucast opa_scale)))"
    and ck: "ck = lv_img_color_format_is_chroma_keyed (dec_cf cdsc)"
    and ab: "ab = lv_img_color_format_has_alpha (dec_cf cdsc)"
    and composed: "compose_lines conf env mask_area opa ck ab style bufs k
                     (lv_area_set_height mask_com 1) (w_dest w) = Inr d"
  shows "lv_img_draw_core conf env cenv coords mask_area src style opa_scale w =
     Inr (LV_RES_INV,
          log_events ([EvCacheOpen True] @
                      line_events x y width (lv_area_set_height mask_com 1) ck ab k @
                      [EvReadLine x (y + int k) width False, EvDecoderClose])
            (w\<lparr>w_dest := d\<rparr>))"
proof -
  have "draw_core_lines conf env cdsc mask_area opa ck ab style width x
      (nat (area_y2 mask_com - area_y1 mask_com + 1)) (lv_area_set_height mask_com 1) y
      (log_events [EvCacheOpen True] w) =
    Inr (LV_RES_INV,
         log_events (line_events x y width (lv_area_set_height mask_com 1) ck ab k @
                     [EvReadLine x (y + int k) width False, EvDecoderClose])
           ((log_events [EvCacheOpen True] w)\<lparr>w_dest := d\<rparr>))"
    using k reads fails composed by (intro draw_core_lines_abort) simp_all
  then show ?thesis
    unfolding lv_img_draw_core_def
    by (simp add: inter opened stream Let_def flip: x y width opa ck ab)
qed

lemma compose_fast_lines:
  "y + int k \<le> 10 \<Longrightarrow> 0 \<le> y \<Longrightarrow>
   compose_lines conf16 trace_env (area 0 0 1 9) 255 False False opaque_style
     (\<lambda>j. [1, 2, 3, 4]) k (area 0 y 1 y) calls = Inr (calls @ fast_calls y k)"
proof (induction k arbitrary: y calls)
  case 0
  then show ?case by simp
next
  case (Suc k)
  have "0 \<le> y" "y \<le> 9" using Suc.prems by simp_all
  note f = fast_line [OF this]
  have "(area 0 y 1 y)\<lparr>area_y1 := area_y1 (area 0 y 1 y) + 1,
      area_y2 := area_y2 (area 0 y 1 y) + 1\<rparr> = area 0 (y + 1) 1 (y + 1)"
    by (simp add: area_def)
  then show ?case
    using Suc.IH [of "y + 1"] Suc.prems by (simp add: f opaque_style_def)
qed

theorem scan_line_failure_aborts_witness:
  "lv_img_draw_core conf16 trace_env (no_fallback (stream_entry 5)) (area 0 0 1 9)
      (area 0 0 1 9) [0] opaque_style 255 world0 =
     Inr (LV_RES_INV,
          \<lparr>w_dest = fast_calls 0 5,
           w_events =
             [EvCacheOpen True,
              EvReadLine 0 0 2 True, EvDrawMap (area 0 0 1 0) False False,
              EvReadLine 0 1 2 True, EvDrawMap (area 0 1 1 1) False False,
              EvReadLine 0 2 2 True, EvDrawMap (area 0 2 1 2) False False,
              EvReadLine 0 3 2 True, EvDrawMap (area 0 3 1 3) False False,
              EvReadLine 0 4 2 True, EvDrawMap (area 0 4 1 4) False False,
              EvReadLine 0 5 2 False, EvDecoderClose]\<rparr>)"
proof -
  have d: "compose_lines conf16 trace_env (area 0 0 1 9) 255 False False opaque_style
      (\<lambda>j. [1, 2, 3, 4]) 5 (area 0 0 1 0) [] = Inr (fast_calls 0 5)"
    using compose_fast_lines [of 0 5 "[]"] by simp
  have i: "lv_area_intersect (area 0 0 1 9) (area 0 0 1 9) = Some (area 0 0 1 9)"
    by (simp add: lv_area_intersect_def area_def Let_def)
  have "lv_img_draw_core conf16 trace_env (no_fallback (stream_entry 5)) (area 0 0 1 9)
      (area 0 0 1 9) [0] opaque_style 255 world0 =
     Inr (LV_RES_INV,
          log_events ([EvCacheOpen True] @
                      line_events 0 0 2 (lv_area_set_height (area 0 0 1 9) 1) False False 5 @
                      [EvReadLine 0 (0 + int 5) 2 False, EvDecoderClose])
            (world0\<lparr>w_dest := fast_calls 0 5\<rparr>))"
    using d
    by (intro scan_line_failure_aborts [where cdsc = "stream_entry 5" and mask_com = "area 0 0 1 9"
          and bufs = "\<lambda>j. [1, 2, 3, 4]" and opa = 255] i)
      (simp_all add: no_fallback_def stream_entry_def area_def lv_area_get_width_def
        lv_area_set_height_def opaque_style_def LV_OPA_COVER_def world0_def)
  then show ?thesis
    by (simp add: log_events_def world0_def lv_area_set_height_def area_def eval_nat_numeral
        del: fast_calls.simps)
qed

lemma line_events_no_close:
  "EvDecoderClose \<notin> set (line_events x y width line ck ab k)"
  "EvCacheOpen b \<notin> set (line_events x y width line ck ab k)"
  "EvReadLine x' y' l False \<notin> set (line_events x y width line ck ab k)"
  using line_events_members [of _ x y width line ck ab k] by auto

lemma full_buffer_draw:
  "lv_img_draw_core conf16 trace_env (no_fallback full_entry) (area 0 0 1 1) (area 0 0 1 9) [0]
      opaque_style 255 world0 =
     Inr (LV_RES_OK,
          \<lparr>w_dest = [\<lparr>bl_clip_area = area 0 0 1 9, bl_map_area = area 0 0 1 1,
                       bl_map_buf = [0x0201, 0x0403, 0x0605, 0x0807], bl_mask = None,
                       bl_mask_res = LV_MASK_RES_FULL_COVER, bl_opa = 255,
                       bl_mode = LV_BLEND_MODE_NORMAL\<rparr>],
           w_events = [EvCacheOpen True, EvDrawMap (area 0 0 1 1) False False]\<rparr>)"
proof -
  have i: "lv_area_intersect (area 0 0 1 9) (area 0 0 1 1) = Some (area 0 0 1 1)"
    "lv_area_intersect (area 0 0 1 1) (area 0 0 1 9) = Some (area 0 0 1 1)"
    by (simp_all add: lv_area_intersect_def area_def Let_def)
  have m: "\<not> (255 :: lv_opa_t) < LV_OPA_MIN conf16" "(255 :: lv_opa_t) > LV_OPA_MAX conf16"
    by (simp_all add: conf16_def)
  have e: "mask_cnt trace_env = 0" "blend_map trace_env = (\<lambda>bc calls. calls @ [bc])"
    by (simp_all add: trace_env_def)
  have u: "[0..<4] = [0, 1, 2, 3]"
    by (simp add: eval_nat_numeral)
  have c: "colors_of_bytes conf16 [1, 2, 3, 4, 5, 6, 7, 8] = [0x0201, 0x0403, 0x0605, 0x0807]"
    unfolding colors_of_bytes_def sizeof16 by (simp add: u)
  have d: "lv_draw_map conf16 trace_env (area 0 0 1 1) (area 0 0 1 9) [1, 2, 3, 4, 5, 6, 7, 8]
      255 False False 0 0 [] =
      Inr [\<lparr>bl_clip_area = area 0 0 1 9, bl_map_area = area 0 0 1 1,
             bl_map_buf = [0x0201, 0x0403, 0x0605, 0x0807], bl_mask = None,
             bl_mask_res = LV_MASK_RES_FULL_COVER, bl_opa = 255,
             bl_mode = LV_BLEND_MODE_NORMAL\<rparr>]"
    unfolding lv_draw_map_def lv_draw_map_fast_def
    by (simp add: i m e c Let_def LV_OPA_COVER_def LV_OPA_TRANSP_def)
  show ?thesis
    unfolding lv_img_draw_core_def
    by (simp add: i no_fallback_def full_entry_def opaque_style_def LV_OPA_COVER_def world0_def
        d [unfolded full_entry_def] log_events_def Let_def)
qed

text \<open>
  C7, as stated, fails on the full-buffer path: the entry is opened, the image is
  composited, \<open>LV_RES_OK\<close> is returned, and the decoder is not closed.
\<close>

theorem full_buffer_draw_leaves_entry_open:
  "lv_img_draw_core conf16 trace_env (no_fallback full_entry) (area 0 0 1 1) (area 0 0 1 9) [0]
      opaque_style 255 world0 =
     Inr (LV_RES_OK,
          \<lparr>w_dest = [\<lparr>bl_clip_area = area 0 0 1 9, bl_map_area = area 0 0 1 1,
                       bl_map_buf = [0x0201, 0x0403, 0x0605, 0x0807], bl_mask = None,
                       bl_mask_res = LV_MASK_RES_FULL_COVER, bl_opa = 255,
                       bl_mode = LV_BLEND_MODE_NORMAL\<rparr>],
           w_events = [EvCacheOpen True, EvDrawMap (area 0 0 1 1) False False]\<rparr>)"
  by (rule full_buffer_draw)

text \<open>
  C7, amended. One call of \<open>lv_img_draw_core\<close> opens at most one cache entry. It closes
  the decoder exactly when a scan-line read has failed, at most once and as its last
  action, and then returns \<open>LV_RES_INV\<close>; whenever it returns \<open>LV_RES_OK\<close> (full buffer,
  all rows streamed, decode-error fallback, empty intersection) it has not closed it.
\<close>

theorem entry_closed_only_on_read_failure:
  assumes "lv_img_draw_core conf env cenv coords mask_area src style opa_scale w = Inr (res, w')"
  shows "\<exists>evs. w_events w' = w_events w @ evs \<and>
     count_list evs (EvCacheOpen True) \<le> 1 \<and>
     count_list evs EvDecoderClose \<le> 1 \<and>
     (EvDecoderClose \<in> set evs \<longleftrightarrow> (\<exists>x y len. EvReadLine x y len False \<in> set evs)) \<and>
     (EvDecoderClose \<in> set evs \<longrightarrow>
        res = LV_RES_INV \<and> EvCacheOpen True \<in> set evs \<and> last evs = EvDecoderClose) \<and>
     (res = LV_RES_OK \<longrightarrow> EvDecoderClose \<notin> set evs)"
proof -
  from draw_core_events [OF assms] obtain evs where
    evs: "w_events w' = w_events w @ evs" and
    forms: "evs = [] \<and> res = LV_RES_OK \<or>
      evs = [EvCacheOpen False] \<and> res = LV_RES_INV \<or>
      (\<exists>cdsc tail. cache_open cenv src style = Some cdsc \<and> evs = EvCacheOpen True # tail \<and>
         ((\<exists>msg. tail = [EvDrawRect, EvDrawLabel msg]) \<and> res = LV_RES_OK \<or>
          tail = [EvDrawMap coords (lv_img_color_format_is_chroma_keyed (dec_cf cdsc))
                    (lv_img_color_format_has_alpha (dec_cf cdsc))] \<and> res = LV_RES_OK \<or>
          (\<exists>x y width line k. tail =
               line_events x y width line (lv_img_color_format_is_chroma_keyed (dec_cf cdsc))
                 (lv_img_color_format_has_alpha (dec_cf cdsc)) k @
               (if res = LV_RES_INV then [EvReadLine x (y + int k) width False, EvDecoderClose]
                else []))))"
    by blast
  have c0: "count_list (line_events x y width line ck ab k) EvDecoderClose = 0"
    "count_list (line_events x y width line ck ab k) (EvCacheOpen True) = 0"
    for x y width line ck ab k
    by (simp_all add: count_list_0_iff line_events_no_close)
  have "count_list evs (EvCacheOpen True) \<le> 1 \<and>
     count_list evs EvDecoderClose \<le> 1 \<and>
     (EvDecoderClose \<in> set evs \<longleftrightarrow> (\<exists>x y len. EvReadLine x y len False \<in> set evs)) \<and>
     (EvDecoderClose \<in> set evs \<longrightarrow>
        res = LV_RES_INV \<and> EvCacheOpen True \<in> set evs \<and> last evs = EvDecoderClose) \<and>
     (res = LV_RES_OK \<longrightarrow> EvDecoderClose \<notin> set evs)"
    using forms
    by (elim disjE exE conjE) (auto simp: c0 line_events_no_close split: if_splits)
  with evs show ?thesis by blast
qed


lemma draw_map_row_calls:
  assumes "blend_map env = (\<lambda>bc calls. calls @ [bc])"
    and "draw_map_row conf env clip_area draw_area map_p ck ab recolor recolor_opa psb map_w y st
           = Inr st'"
  shows "\<exists>new. rs_dest st' = rs_dest st @ new \<and> (\<forall>bc \<in> set new. bl_mask bc \<noteq> None)"
  using assms(2) unfolding draw_map_row_def Let_def
  by (auto simp: assms(1) split: sum.splits prod.splits if_splits)

lemma draw_map_rows_calls:
  assumes "blend_map env = (\<lambda>bc calls. calls @ [bc])"
  shows "draw_map_rows conf env clip_area draw_area map_p ck ab recolor recolor_opa psb map_w n y st
           = Inr st' \<Longrightarrow>
     \<exists>new. rs_dest st' = rs_dest st @ new \<and> (\<forall>bc \<in> set new. bl_mask bc \<noteq> None)"
proof (induction n arbitrary: y st)
  case 0
  then show ?case by simp
next
  case (Suc n)
  then obtain st1 where
    r: "draw_map_row conf env clip_area draw_area map_p ck ab recolor recolor_opa psb map_w y st
          = Inr st1"
    and rest: "draw_map_rows conf env clip_area draw_area map_p ck ab recolor recolor_opa psb
          map_w n (y + 1) st1 = Inr st'"
    by (auto split: sum.splits)
  from draw_map_row_calls [OF assms r] Suc.IH [OF rest] show ?case
    by auto
qed

lemma general_path_calls:
  assumes "blend_map env = (\<lambda>bc calls. calls @ [bc])"
    and "lv_draw_map_general conf env map_area clip_area draw_area map_p ck ab recolor recolor_opa
           calls = Inr calls'"
  shows "\<exists>new. calls' = calls @ new \<and> (\<forall>bc \<in> set new. bl_mask bc \<noteq> None)"
proof -
  from assms(2) obtain st0 st where
    rows: "draw_map_rows conf env clip_area draw_area map_p ck ab recolor recolor_opa
        (if ab then LV_IMG_PX_SIZE_ALPHA_BYTE conf else sizeof_lv_color_t conf)
        (lv_area_get_width map_area) (nat (lv_area_get_height draw_area)) 0 st0 = Inr st"
    and st0: "rs_dest st0 = calls"
    and fin: "calls' = rs_dest st \<or> (\<exists>bc. bl_mask bc \<noteq> None \<and> calls' = rs_dest st @ [bc])"
    unfolding lv_draw_map_general_def Let_def
    by (auto simp: assms(1) split: sum.splits if_splits)
  from draw_map_rows_calls [OF assms(1) rows] st0 fin show ?thesis
    by auto
qed


lemma chroma_keyed_calls:
  assumes tr: "blend_map env = (\<lambda>bc calls. calls @ [bc])"
    and run: "lv_draw_map conf env map_area clip_area map_p opa True alpha_byte recolor recolor_opa
      calls = Inr calls'"
  shows "\<exists>new. calls' = calls @ new \<and> (\<forall>bc \<in> set new. bl_mask bc \<noteq> None)"
proof (cases "opa < LV_OPA_MIN conf")
  case True
  with run have "calls' = calls"
    by (simp add: lv_draw_map_def)
  then show ?thesis by simp
next
  case visible: False
  show ?thesis
  proof (cases "lv_area_intersect map_area clip_area")
    case None
    with run visible have "calls' = calls"
      by (simp add: lv_draw_map_def Let_def)
    then show ?thesis by simp
  next
    case (Some draw_area0)
    with run visible have "lv_draw_map_general conf env map_area clip_area
        \<lparr>area_x1 = area_x1 draw_area0 - area_x1 (disp_area env),
         area_y1 = area_y1 draw_area0 - area_y1 (disp_area env),
         area_x2 = area_x2 draw_area0 - area_x1 (disp_area env),
         area_y2 = area_y2 draw_area0 - area_y1 (disp_area env)\<rparr>
        map_p True alpha_byte recolor recolor_opa calls = Inr calls'"
      by (simp add: lv_draw_map_def Let_def)
    then show ?thesis by (rule general_path_calls [OF tr])
  qed
qed

lemma draw_core_lines_calls:
  assumes tr: "blend_map env = (\<lambda>bc calls. calls @ [bc])"
  shows "draw_core_lines conf env cdsc mask_area opa True ab style width x n line y w = Inr (res, w')
     \<Longrightarrow> \<exists>new. w_dest w' = w_dest w @ new \<and> (\<forall>bc \<in> set new. bl_mask bc \<noteq> None)"
proof (induction n arbitrary: line y w)
  case 0
  then show ?case by simp
next
  case (Suc n)
  show ?case
  proof (cases "dec_read_line cdsc x y width")
    case None
    with Suc.prems have "w' = log_events [EvReadLine x y width False, EvDecoderClose] w"
      by simp
    then show ?thesis by simp
  next
    case (Some buf)
    with Suc.prems obtain dest where
      row: "lv_draw_map conf env line mask_area buf opa True ab (image_color style)
              (image_intense style) (w_dest w) = Inr dest"
      and rest: "draw_core_lines conf env cdsc mask_area opa True ab style width x n
                 (line\<lparr>area_y1 := area_y1 line + 1, area_y2 := area_y2 line + 1\<rparr>) (y + 1)
                 (log_events [EvReadLine x y width True, EvDrawMap line True ab]
                    (w\<lparr>w_dest := dest\<rparr>)) = Inr (res, w')"
      by (auto split: sum.splits)
    from chroma_keyed_calls [OF tr row] obtain new1 where
      n1: "dest = w_dest w @ new1" "\<forall>bc \<in> set new1. bl_mask bc \<noteq> None"
      by blast
    from Suc.IH [OF rest] obtain new2 where
      n2: "w_dest w' = dest @ new2" "\<forall>bc \<in> set new2. bl_mask bc \<noteq> None"
      by auto
    have "w_dest w' = w_dest w @ (new1 @ new2)" using n1(1) n2(1) by simp
    moreover have "\<forall>bc \<in> set (new1 @ new2). bl_mask bc \<noteq> None" using n1(2) n2(2) by auto
    ultimately show ?thesis by blast
  qed
qed

lemma draw_core_calls:
  assumes tr: "blend_map env = (\<lambda>bc calls. calls @ [bc])"
    and opened: "cache_open cenv src style = Some cdsc"
    and ck: "lv_img_color_format_is_chroma_keyed (dec_cf cdsc)"
    and run: "lv_img_draw_core conf env cenv coords mask_area src style opa_scale w = Inr (res, w')"
  shows "\<exists>new. w_dest w' =
            (case (lv_area_intersect mask_area coords, dec_error_msg cdsc) of
               (Some mask_com, Some msg) \<Rightarrow> draw_fallback cenv coords mask_area msg (w_dest w)
             | _ \<Rightarrow> w_dest w) @ new \<and>
          (\<forall>bc \<in> set new. bl_mask bc \<noteq> None)"
proof (cases "lv_area_intersect mask_area coords")
  case None
  with run have "w' = w" by (simp add: lv_img_draw_core_def)
  with None show ?thesis by simp
next
  case (Some mask_com)
  show ?thesis
  proof (cases "dec_error_msg cdsc")
    case (Some msg)
    with run \<open>lv_area_intersect mask_area coords = Some mask_com\<close> opened
    have "w' = fallback cenv coords mask_area msg (log_events [EvCacheOpen True] w)"
      by (simp add: lv_img_draw_core_def Let_def)
    then have "w_dest w' = draw_fallback cenv coords mask_area msg (w_dest w)"
      by (simp add: fallback_def log_events_def)
    with Some \<open>lv_area_intersect mask_area coords = Some mask_com\<close> show ?thesis by simp
  next
    case no_error: None
    show ?thesis
    proof (cases "dec_img_data cdsc")
      case (Some img_data)
      with run \<open>lv_area_intersect mask_area coords = Some mask_com\<close> opened no_error ck
      obtain opa dest where
        draw: "lv_draw_map conf env coords mask_area img_data opa True
                 (lv_img_color_format_has_alpha (dec_cf cdsc)) (image_color style)
                 (image_intense style) (w_dest w) = Inr dest"
        and w': "w_dest w' = dest"
        by (auto simp add: lv_img_draw_core_def Let_def log_events_def split: sum.splits)
      from chroma_keyed_calls [OF tr draw] w' no_error
        \<open>lv_area_intersect mask_area coords = Some mask_com\<close>
      show ?thesis by simp
    next
      case None
      with run \<open>lv_area_intersect mask_area coords = Some mask_com\<close> opened no_error ck
      obtain opa width x n line y where
        "draw_core_lines conf env cdsc mask_area opa True
           (lv_img_color_format_has_alpha (dec_cf cdsc)) style width x n line y
           (log_events [EvCacheOpen True] w) = Inr (res, w')"
        by (auto simp add: lv_img_draw_core_def Let_def)
      from draw_core_lines_calls [OF tr this] no_error
        \<open>lv_area_intersect mask_area coords = Some mask_com\<close>
      show ?thesis by (simp add: log_events_def)
    qed
  qed
qed

lemma draw_map_line_numeral:
  "draw_map_line conf env map_p ck ab recolor recolor_opa psb (numeral k) map_px px_i m2 mb =
     (case draw_map_pixel conf env map_p ck ab recolor recolor_opa map_px px_i m2 mb of
        Inl e \<Rightarrow> Inl e
      | Inr (m2', mb') \<Rightarrow>
          draw_map_line conf env map_p ck ab recolor recolor_opa psb (pred_numeral k)
            (map_px + int psb) (px_i + 1) m2' mb')"
  by (simp add: numeral_eq_Suc)

lemma draw_map_rows_numeral:
  "draw_map_rows conf env clip_area draw_area map_p ck ab recolor recolor_opa psb map_w
       (numeral k) y st =
     (case draw_map_row conf env clip_area draw_area map_p ck ab recolor recolor_opa psb map_w
             y st of
        Inl e \<Rightarrow> Inl e
      | Inr st' \<Rightarrow>
          draw_map_rows conf env clip_area draw_area map_p ck ab recolor recolor_opa psb map_w
            (pred_numeral k) (y + 1) st')"
  by (simp add: numeral_eq_Suc)

lemma chroma_keyed_line:
  "lv_draw_map conf8 trace_env (area 0 0 1 0) (area 0 0 1 9) [0x1C, 0x07] 255 True False 0 0 []
     = Inr [\<lparr>bl_clip_area = area 0 0 1 9, bl_map_area = area 0 0 1 0,
             bl_map_buf = [0, 0x07], bl_mask = Some [0, 255],
             bl_mask_res = LV_MASK_RES_CHANGED, bl_opa = 255,
             bl_mode = LV_BLEND_MODE_NORMAL\<rparr>]"
proof -
  have i: "lv_area_intersect (area 0 0 1 0) (area 0 0 1 9) = Some (area 0 0 1 0)"
    by (simp add: lv_area_intersect_def area_def Let_def)
  have u: "[0..<2] = [0, Suc 0]"
    by (simp add: numeral_2_eq_2)
  show ?thesis
    unfolding lv_draw_map_def
    apply (simp add: i conf8_def trace_env_def Let_def LV_OPA_COVER_def LV_OPA_TRANSP_def)
    apply (simp add: lv_draw_map_general_def Let_def area_def lv_area_get_width_def
        lv_area_get_height_def sizeof_lv_color_t_def u)
    apply (simp add: draw_map_row_def Let_def lv_area_get_width_def draw_map_pixel_def
        draw_map_line_numeral draw_map_rows_numeral
        arr_write_def read_px_color_def buf_read_int_def LV_OPA_COVER_def LV_OPA_TRANSP_def)
    done
qed

lemma indexed_draw:
  "lv_img_draw_core conf8 trace_env (no_fallback indexed_entry) (area 0 0 1 0) (area 0 0 1 9) [0]
      opaque_style 255 world0 =
     Inr (LV_RES_OK,
          \<lparr>w_dest = [\<lparr>bl_clip_area = area 0 0 1 9, bl_map_area = area 0 0 1 0,
                       bl_map_buf = [0, 0x07], bl_mask = Some [0, 255],
                       bl_mask_res = LV_MASK_RES_CHANGED, bl_opa = 255,
                       bl_mode = LV_BLEND_MODE_NORMAL\<rparr>],
           w_events = [EvCacheOpen True, EvDrawMap (area 0 0 1 0) True False]\<rparr>)"
proof -
  have i: "lv_area_intersect (area 0 0 1 9) (area 0 0 1 0) = Some (area 0 0 1 0)"
    by (simp add: lv_area_intersect_def area_def Let_def)
  show ?thesis
    unfolding lv_img_draw_core_def
    by (simp add: i no_fallback_def indexed_entry_def opaque_style_def LV_OPA_COVER_def world0_def
        chroma_keyed_line log_events_def Let_def)
qed

lemma draw_core_flags:
  assumes opened: "cache_open cenv src style = Some cdsc"
    and ck: "lv_img_color_format_is_chroma_keyed (dec_cf cdsc)"
    and run: "lv_img_draw_core conf env cenv coords mask_area src style opa_scale w = Inr (res, w')"
  shows "\<forall>a ck ab. EvDrawMap a ck ab \<in> set (drop (length (w_events w)) (w_events w')) \<longrightarrow> ck"
proof -
  from draw_core_events [OF run] obtain evs where
    evs: "w_events w' = w_events w @ evs" and
    forms: "evs = [] \<and> res = LV_RES_OK \<or>
      evs = [EvCacheOpen False] \<and> res = LV_RES_INV \<or>
      (\<exists>cdsc tail. cache_open cenv src style = Some cdsc \<and> evs = EvCacheOpen True # tail \<and>
         ((\<exists>msg. tail = [EvDrawRect, EvDrawLabel msg]) \<and> res = LV_RES_OK \<or>
          tail = [EvDrawMap coords (lv_img_color_format_is_chroma_keyed (dec_cf cdsc))
                    (lv_img_color_format_has_alpha (dec_cf cdsc))] \<and> res = LV_RES_OK \<or>
          (\<exists>x y width line k. tail =
               line_events x y width line (lv_img_color_format_is_chroma_keyed (dec_cf cdsc))
                 (lv_img_color_format_has_alpha (dec_cf cdsc)) k @
               (if res = LV_RES_INV then [EvReadLine x (y + int k) width False, EvDecoderClose]
                else []))))"
    by blast
  have le: "ck'" if "EvDrawMap a ck' ab' \<in> set (line_events x y width line
      (lv_img_color_format_is_chroma_keyed (dec_cf cdsc))
      (lv_img_color_format_has_alpha (dec_cf cdsc)) k)" for a ck' ab' x y width line k
    using line_events_members [OF that] ck by simp
  have "ck'" if m: "EvDrawMap a ck' ab' \<in> set evs" for a ck' ab'
  proof -
    from forms m obtain cdsc' tail where
      o': "cache_open cenv src style = Some cdsc'" and e': "evs = EvCacheOpen True # tail" and
      tail': "(\<exists>msg. tail = [EvDrawRect, EvDrawLabel msg]) \<and> res = LV_RES_OK \<or>
          tail = [EvDrawMap coords (lv_img_color_format_is_chroma_keyed (dec_cf cdsc'))
                    (lv_img_color_format_has_alpha (dec_cf cdsc'))] \<and> res = LV_RES_OK \<or>
          (\<exists>x y width line k. tail =
               line_events x y width line (lv_img_color_format_is_chroma_keyed (dec_cf cdsc'))
                 (lv_img_color_format_has_alpha (dec_cf cdsc')) k @
               (if res = LV_RES_INV then [EvReadLine x (y + int k) width False, EvDecoderClose]
                else []))"
    proof (elim disjE exE conjE)
      assume "evs = []"
      with m show ?thesis by simp
    next
      assume "evs = [EvCacheOpen False]"
      with m show ?thesis by simp
    qed blast+
    from o' opened have same: "cdsc' = cdsc" by simp
    from m e' have t: "EvDrawMap a ck' ab' \<in> set tail" by simp
    from tail' have tail: "(\<exists>msg. tail = [EvDrawRect, EvDrawLabel msg]) \<or>
          tail = [EvDrawMap coords (lv_img_color_format_is_chroma_keyed (dec_cf cdsc))
                    (lv_img_color_format_has_alpha (dec_cf cdsc))] \<or>
          (\<exists>x y width line k. tail =
               line_events x y width line (lv_img_color_format_is_chroma_keyed (dec_cf cdsc))
                 (lv_img_color_format_has_alpha (dec_cf cdsc)) k @
               (if res = LV_RES_INV then [EvReadLine x (y + int k) width False, EvDecoderClose]
                else []))"
      unfolding same by blast
    from tail show ?thesis
    proof (elim disjE exE)
      fix msg assume "tail = [EvDrawRect, EvDrawLabel msg]"
      with t show ?thesis by simp
    next
      assume "tail = [EvDrawMap coords (lv_img_color_format_is_chroma_keyed (dec_cf cdsc))
                    (lv_img_color_format_has_alpha (dec_cf cdsc))]"
      with t ck show ?thesis by simp
    next
      fix x y width line k
      assume "tail =
               line_events x y width line (lv_img_color_format_is_chroma_keyed (dec_cf cdsc))
                 (lv_img_color_format_has_alpha (dec_cf cdsc)) k @
               (if res = LV_RES_INV then [EvReadLine x (y + int k) width False, EvDecoderClose]
                else [])"
      with t have "EvDrawMap a ck' ab' \<in> set (line_events x y width line
          (lv_img_color_format_is_chroma_keyed (dec_cf cdsc))
          (lv_img_color_format_has_alpha (dec_cf cdsc)) k)"
        by (simp split: if_splits)
      then show ?thesis by (rule le)
    qed
  qed
  then have "\<forall>a ck ab. EvDrawMap a ck ab \<in> set evs \<longrightarrow> ck"
    by blast
  then show ?thesis
    by (simp add: evs)
qed

text \<open>
  C9. \<open>lv_img_color_format_is_chroma_keyed\<close> is true exactly for the chroma-keyed
  true-colour and raw formats and the four indexed formats. Consequently, when
  \<open>lv_img_draw_core\<close> draws an entry of an indexed format, every call of \<open>lv_draw_map\<close>
  it makes has \<open>chroma_key\<close> set, and no call of the blend primitive it causes has the
  null mask of the fast path: with a destination that records the blend calls, the
  destination afterwards is the one before (after the fallback drawing, when the area
  is not empty and the decoder reported an error) followed by blend calls that all carry
  a mask.
\<close>

theorem indexed_source_never_fast_path:
  "(lv_img_color_format_is_chroma_keyed cf \<longleftrightarrow>
      cf \<in> {LV_IMG_CF_TRUE_COLOR_CHROMA_KEYED, LV_IMG_CF_RAW_CHROMA_KEYED, LV_IMG_CF_INDEXED_1BIT,
            LV_IMG_CF_INDEXED_2BIT, LV_IMG_CF_INDEXED_4BIT, LV_IMG_CF_INDEXED_8BIT}) \<and>
   (cache_open cenv src style = Some cdsc \<longrightarrow>
    dec_cf cdsc \<in> {LV_IMG_CF_INDEXED_1BIT, LV_IMG_CF_INDEXED_2BIT, LV_IMG_CF_INDEXED_4BIT,
                   LV_IMG_CF_INDEXED_8BIT} \<longrightarrow>
    lv_img_draw_core conf env cenv coords mask_area src style opa_scale w = Inr (res, w') \<longrightarrow>
      (\<forall>a ck ab. EvDrawMap a ck ab \<in> set (drop (length (w_events w)) (w_events w')) \<longrightarrow> ck) \<and>
      (blend_map env = (\<lambda>bc calls. calls @ [bc]) \<longrightarrow>
         (\<exists>new. w_dest w' =
                   (case (lv_area_intersect mask_area coords, dec_error_msg cdsc) of
                      (Some mask_com, Some msg) \<Rightarrow>
                        draw_fallback cenv coords mask_area msg (w_dest w)
                    | _ \<Rightarrow> w_dest w) @ new \<and>
                 (\<forall>bc \<in> set new. bl_mask bc \<noteq> None))))"
proof (intro conjI impI)
  show "lv_img_color_format_is_chroma_keyed cf \<longleftrightarrow>
      cf \<in> {LV_IMG_CF_TRUE_COLOR_CHROMA_KEYED, LV_IMG_CF_RAW_CHROMA_KEYED, LV_IMG_CF_INDEXED_1BIT,
            LV_IMG_CF_INDEXED_2BIT, LV_IMG_CF_INDEXED_4BIT, LV_IMG_CF_INDEXED_8BIT}"
    by (cases cf) simp_all
next
  assume opened: "cache_open cenv src style = Some cdsc"
    and indexed: "dec_cf cdsc \<in> {LV_IMG_CF_INDEXED_1BIT, LV_IMG_CF_INDEXED_2BIT,
        LV_IMG_CF_INDEXED_4BIT, LV_IMG_CF_INDEXED_8BIT}"
    and run: "lv_img_draw_core conf env cenv coords mask_area src style opa_scale w = Inr (res, w')"
  have ck: "lv_img_color_format_is_chroma_keyed (dec_cf cdsc)"
    using indexed by auto
  show "\<forall>a ck ab. EvDrawMap a ck ab \<in> set (drop (length (w_events w)) (w_events w')) \<longrightarrow> ck"
    by (rule draw_core_flags [OF opened ck run])
next
  assume opened: "cache_open cenv src style = Some cdsc"
    and indexed: "dec_cf cdsc \<in> {LV_IMG_CF_INDEXED_1BIT, LV_IMG_CF_INDEXED_2BIT,
        LV_IMG_CF_INDEXED_4BIT, LV_IMG_CF_INDEXED_8BIT}"
    and run: "lv_img_draw_core conf env cenv coords mask_area src style opa_scale w = Inr (res, w')"
    and tr: "blend_map env = (\<lambda>bc calls. calls @ [bc])"
  have ck: "lv_img_color_format_is_chroma_keyed (dec_cf cdsc)"
    using indexed by auto
  show "\<exists>new. w_dest w' =
                   (case (lv_area_intersect mask_area coords, dec_error_msg cdsc) of
                      (Some mask_com, Some msg) \<Rightarrow>
                        draw_fallback cenv coords mask_area msg (w_dest w)
                    | _ \<Rightarrow> w_dest w) @ new \<and>
                 (\<forall>bc \<in> set new. bl_mask bc \<noteq> None)"
    by (rule draw_core_calls [OF tr opened ck run])
qed

theorem indexed_source_never_fast_path_witness:
  "lv_img_color_format_is_chroma_keyed LV_IMG_CF_INDEXED_8BIT \<and>
   (\<nexists>a ab. EvDrawMap a False ab \<in>
       set (drop (length (w_events world0))
             [EvCacheOpen True, EvDrawMap (area 0 0 1 0) True False])) \<and>
   (\<exists>new. [\<lparr>bl_clip_area = area 0 0 1 9, bl_map_area = area 0 0 1 0,
             bl_map_buf = [0, 0x07], bl_mask = Some [0, 255],
             bl_mask_res = LV_MASK_RES_CHANGED, bl_opa = 255,
             bl_mode = LV_BLEND_MODE_NORMAL\<rparr>] = w_dest world0 @ new \<and>
          (\<forall>bc \<in> set new. bl_mask bc \<noteq> None))"
proof -
  note t = indexed_source_never_fast_path [where cf = LV_IMG_CF_INDEXED_8BIT
      and cenv = "no_fallback indexed_entry" and src = "[0]" and style = opaque_style
      and cdsc = indexed_entry and conf = conf8 and env = trace_env and coords = "area 0 0 1 0"
      and mask_area = "area 0 0 1 9" and opa_scale = 255 and w = world0 and res = LV_RES_OK]
  have o: "cache_open (no_fallback indexed_entry) [0] opaque_style = Some indexed_entry"
    "dec_cf indexed_entry \<in> {LV_IMG_CF_INDEXED_1BIT, LV_IMG_CF_INDEXED_2BIT,
        LV_IMG_CF_INDEXED_4BIT, LV_IMG_CF_INDEXED_8BIT}"
    "blend_map trace_env = (\<lambda>bc calls. calls @ [bc])"
    by (simp_all add: no_fallback_def indexed_entry_def trace_env_def)
  have e: "dec_error_msg indexed_entry = None"
    by (simp add: indexed_entry_def)
  note core = t [THEN conjunct2, THEN mp, OF o(1), THEN mp, OF o(2), THEN mp, OF indexed_draw]
  from t have table: "lv_img_color_format_is_chroma_keyed LV_IMG_CF_INDEXED_8BIT"
    by simp
  from core [THEN conjunct1]
  have flags: "\<nexists>a ab. EvDrawMap a False ab \<in>
       set (drop (length (w_events world0))
             [EvCacheOpen True, EvDrawMap (area 0 0 1 0) True False])"
    by auto
  from core [THEN conjunct2, THEN mp, OF o(3)]
  have calls: "\<exists>new. [\<lparr>bl_clip_area = area 0 0 1 9, bl_map_area = area 0 0 1 0,
             bl_map_buf = [0, 0x07], bl_mask = Some [0, 255],
             bl_mask_res = LV_MASK_RES_CHANGED, bl_opa = 255,
             bl_mode = LV_BLEND_MODE_NORMAL\<rparr>] = w_dest world0 @ new \<and>
          (\<forall>bc \<in> set new. bl_mask bc \<noteq> None)"
    by (simp add: e split: option.splits)
  from table flags calls show ?thesis by blast
qed

lemma draw_core_lines_numeral:
  "draw_core_lines conf env cdsc mask_area opa ck ab style width x (numeral k) line y w =
     (case dec_read_line cdsc x y width of
        None \<Rightarrow> Inr (LV_RES_INV, log_events [EvReadLine x y width False, EvDecoderClose] w)
      | Some buf \<Rightarrow>
          (case lv_draw_map conf env line mask_area buf opa ck ab
                  (image_color style) (image_intense style) (w_dest w) of
             Inl e \<Rightarrow> Inl e
           | Inr dest \<Rightarrow>
               draw_core_lines conf env cdsc mask_area opa ck ab style width x (pred_numeral k)
                 (line\<lparr>area_y1 := area_y1 line + 1, area_y2 := area_y2 line + 1\<rparr>) (y + 1)
                 (log_events [EvReadLine x y width True, EvDrawMap line ck ab]
                    (w\<lparr>w_dest := dest\<rparr>))))"
  by (simp add: numeral_eq_Suc)

lemma stream_abort_draw:
  "lv_img_draw_core conf16 trace_env (no_fallback (stream_entry 1)) (area 0 0 1 9)
      (area 0 0 1 9) [0] opaque_style 255 world0 =
     Inr (LV_RES_INV,
          \<lparr>w_dest = fast_calls 0 1,
           w_events =
             [EvCacheOpen True, EvReadLine 0 0 2 True, EvDrawMap (area 0 0 1 0) False False,
              EvReadLine 0 1 2 False, EvDecoderClose]\<rparr>)"
proof -
  have i: "lv_area_intersect (area 0 0 1 9) (area 0 0 1 9) = Some (area 0 0 1 9)"
    by (simp add: lv_area_intersect_def area_def Let_def)
  have f: "lv_draw_map conf16 trace_env (area 0 0 1 0) (area 0 0 1 9) [1, 2, 3, 4] 255 False False
      0 0 [] = Inr (fast_calls 0 1)"
    using fast_line [of 0 "[]"] by (simp add: numeral_eq_Suc)
  show ?thesis
    unfolding lv_img_draw_core_def
    by (simp add: i no_fallback_def stream_entry_def opaque_style_def LV_OPA_COVER_def world0_def
          Let_def lv_area_get_width_def lv_area_set_height_def)
      (simp add: area_def draw_core_lines_numeral f [unfolded area_def] log_events_def)
qed

theorem entry_closed_only_on_read_failure_witness:
  "\<exists>evs. [EvCacheOpen True, EvReadLine 0 0 2 True, EvDrawMap (area 0 0 1 0) False False,
           EvReadLine 0 1 2 False, EvDecoderClose] = w_events world0 @ evs \<and>
     count_list evs (EvCacheOpen True) \<le> 1 \<and>
     count_list evs EvDecoderClose \<le> 1 \<and>
     (EvDecoderClose \<in> set evs \<longleftrightarrow> (\<exists>x y len. EvReadLine x y len False \<in> set evs)) \<and>
     (EvDecoderClose \<in> set evs \<longrightarrow>
        LV_RES_INV = LV_RES_INV \<and> EvCacheOpen True \<in> set evs \<and> last evs = EvDecoderClose) \<and>
     (LV_RES_INV = LV_RES_OK \<longrightarrow> EvDecoderClose \<notin> set evs)"
  using entry_closed_only_on_read_failure [OF stream_abort_draw] by simp

section \<open>The compositor: properties\<close>

subsection \<open>Decoding a pixel and casting the buffer\<close>









subsection \<open>The loop over the rows on the opaque path\<close>





























subsection \<open>The fast path against the general path\<close>








end
